theory Spec2Isabelle
  imports Main "HOL-Library.Sublist"
begin

section \<open>Strings and the regular expressions of the sources\<close>

text \<open>
  A JavaScript string is modelled as a \<^typ>\<open>string\<close>, one \<^typ>\<open>char\<close> per code unit.
  The character classes below are the ones written in the regular expressions of
  \<^verbatim>\<open>compiler_host.ts\<close>: \<^verbatim>\<open>[a-zA-Z_$]\<close> and \<^verbatim>\<open>[a-zA-Z0-9._$]\<close>.
\<close>

definition inRange :: "nat \<Rightarrow> nat \<Rightarrow> char \<Rightarrow> bool" where
  "inRange lo hi c = (lo \<le> of_char c \<and> (of_char c :: nat) \<le> hi)"

definition isLetter :: "char \<Rightarrow> bool" where
  "isLetter c = (inRange 97 122 c \<or> inRange 65 90 c)"

definition isDigit :: "char \<Rightarrow> bool" where
  "isDigit c = inRange 48 57 c"

definition isIdentStart :: "char \<Rightarrow> bool" where
  "isIdentStart c = (isLetter c \<or> c = CHR ''_'' \<or> c = CHR ''$'')"

definition isIdentPart :: "char \<Rightarrow> bool" where
  "isIdentPart c = (isLetter c \<or> isDigit c \<or> c = CHR ''.'' \<or> c = CHR ''_'' \<or> c = CHR ''$'')"

text \<open>The identifier grammar \<^verbatim>\<open>[A-Za-z_$][A-Za-z0-9._$]*\<close>.\<close>

fun validIdentifier :: "string \<Rightarrow> bool" where
  "validIdentifier [] = False"
| "validIdentifier (c # cs) = (isIdentStart c \<and> list_all isIdentPart cs)"

text \<open>\<^verbatim>\<open>s.startsWith(p)\<close> and the test of a regular expression \<^verbatim>\<open>/p$/\<close> for a literal \<^verbatim>\<open>p\<close>.\<close>

definition startsWith :: "string \<Rightarrow> string \<Rightarrow> bool" where
  "startsWith p s = (take (length p) s = p)"

definition endsWith :: "string \<Rightarrow> string \<Rightarrow> bool" where
  "endsWith p s = (length p \<le> length s \<and> drop (length s - length p) s = p)"

text \<open>\<^verbatim>\<open>s.replace(/p$/, r)\<close> for a literal \<^verbatim>\<open>p\<close> and a replacement \<^verbatim>\<open>r\<close> without dollar signs.\<close>

definition replaceSuffix :: "string \<Rightarrow> string \<Rightarrow> string \<Rightarrow> string" where
  "replaceSuffix p r s = (if endsWith p s then take (length s - length p) s @ r else s)"

text \<open>
  The dot of a regular expression matches every code unit but a line terminator; of the
  four line terminators of the language, line feed and carriage return are characters
  of the model.
\<close>

definition isLineTerminator :: "char \<Rightarrow> bool" where
  "isLineTerminator c = (c = CHR 0x0A \<or> c = CHR 0x0D)"

text \<open>
  One attempt, at the start of \<open>s\<close>, to match
  \<^verbatim>\<open>lit1 ([^\/]+) lit2 (.*)\<close>, where \<open>lit2\<close> begins with a slash: the class takes the
  longest run without a slash (a shorter one is never followed by a slash), the dot-star
  the longest run without a line terminator. The result holds the two groups and the
  text after the match.
\<close>

definition matchDistAt :: "string \<Rightarrow> string \<Rightarrow> string \<Rightarrow> (string \<times> string \<times> string) option" where
  "matchDistAt lit1 lit2 s =
     (if startsWith lit1 s then
        (let t = drop (length lit1) s;
             pkg = takeWhile (\<lambda>c. c \<noteq> CHR ''/'') t;
             u = dropWhile (\<lambda>c. c \<noteq> CHR ''/'') t
         in if pkg \<noteq> [] \<and> startsWith lit2 u then
              (let v = drop (length lit2) u
               in Some (pkg, takeWhile (\<lambda>c. \<not> isLineTerminator c) v,
                        dropWhile (\<lambda>c. \<not> isLineTerminator c) v))
            else None)
      else None)"

text \<open>
  \<^verbatim>\<open>dist.test(importPath)\<close> and
  \<^verbatim>\<open>importPath.replace(dist, (match, pkg, impt) => `@angular/${pkg}/${impt}`)\<close>
  in one: \<open>None\<close> when the expression matches nowhere, otherwise the string with its
  leftmost match replaced.
\<close>

fun replaceDist :: "string \<Rightarrow> string \<Rightarrow> string \<Rightarrow> string option" where
  "replaceDist lit1 lit2 [] =
     (case matchDistAt lit1 lit2 [] of
        Some (pkg, impt, rest) \<Rightarrow> Some (''@angular/'' @ pkg @ ''/'' @ impt @ rest)
      | None \<Rightarrow> None)"
| "replaceDist lit1 lit2 (c # cs) =
     (case matchDistAt lit1 lit2 (c # cs) of
        Some (pkg, impt, rest) \<Rightarrow> Some (''@angular/'' @ pkg @ ''/'' @ impt @ rest)
      | None \<Rightarrow> map_option (\<lambda>r. c # r) (replaceDist lit1 lit2 cs))"

text \<open>
  The last three replacements of \<^verbatim>\<open>pathToGoogModuleName\<close>:
  \<^verbatim>\<open>.replace(/\//g, '.')\<close>, \<^verbatim>\<open>.replace(/^[^a-zA-Z_$]/, '_')\<close> and
  \<^verbatim>\<open>.replace(/[^a-zA-Z0-9._$]/g, '_')\<close>.
\<close>

definition replaceSlashes :: "string \<Rightarrow> string" where
  "replaceSlashes s = map (\<lambda>c. if c = CHR ''/'' then CHR ''.'' else c) s"

fun replaceFirstChar :: "string \<Rightarrow> string" where
  "replaceFirstChar [] = []"
| "replaceFirstChar (c # cs) = (if isIdentStart c then c # cs else CHR ''_'' # cs)"

definition replaceOtherChars :: "string \<Rightarrow> string" where
  "replaceOtherChars s = map (\<lambda>c. if isIdentPart c then c else CHR ''_'') s"

section \<open>The path module\<close>

text \<open>
  The sources call \<^verbatim>\<open>path.join\<close>, \<^verbatim>\<open>path.dirname\<close>, \<^verbatim>\<open>path.relative\<close> and read
  \<^verbatim>\<open>path.sep\<close> of the platform's path module, which is not part of the repository. The
  functions of the repository take the module as a parameter.
\<close>

record pathModule =
  path_join :: "string \<Rightarrow> string \<Rightarrow> string"
  path_dirname :: "string \<Rightarrow> string"
  path_relative :: "string \<Rightarrow> string \<Rightarrow> string"
  path_sep :: string

text \<open>
  The POSIX flavour of the module, for the concrete runs below, written after its
  documentation: a path is split at slashes, empty and \<^verbatim>\<open>.\<close> segments are dropped and a
  \<^verbatim>\<open>..\<close> segment removes the segment in front of it.
\<close>

fun splitSlash :: "string \<Rightarrow> string list" where
  "splitSlash [] = [[]]"
| "splitSlash (c # cs) =
     (if c = CHR ''/'' then [] # splitSlash cs
      else (case splitSlash cs of seg # segs \<Rightarrow> (c # seg) # segs | [] \<Rightarrow> [[c]]))"

fun joinSlash :: "string list \<Rightarrow> string" where
  "joinSlash [] = []"
| "joinSlash [seg] = seg"
| "joinSlash (seg # segs) = seg @ ''/'' @ joinSlash segs"

text \<open>The segments are kept in reverse, the last one first.\<close>

fun normalizeSegments :: "bool \<Rightarrow> string list \<Rightarrow> string list \<Rightarrow> string list" where
  "normalizeSegments allowAboveRoot acc [] = rev acc"
| "normalizeSegments allowAboveRoot acc (seg # segs) =
     (if seg = [] \<or> seg = ''.'' then normalizeSegments allowAboveRoot acc segs
      else if seg = ''..'' then
        (case acc of
           seg0 # older \<Rightarrow>
             (if seg0 = ''..'' then normalizeSegments allowAboveRoot (seg # acc) segs
              else normalizeSegments allowAboveRoot older segs)
         | [] \<Rightarrow>
             (if allowAboveRoot then normalizeSegments allowAboveRoot [seg] segs
              else normalizeSegments allowAboveRoot [] segs))
      else normalizeSegments allowAboveRoot (seg # acc) segs)"

definition isAbsolute :: "string \<Rightarrow> bool" where
  "isAbsolute p = startsWith ''/'' p"

definition posix_normalize :: "string \<Rightarrow> string" where
  "posix_normalize p =
     (if p = [] then ''.''
      else
        (let body = joinSlash (normalizeSegments (\<not> isAbsolute p) [] (splitSlash p));
             body1 = (if body = [] \<and> \<not> isAbsolute p then ''.'' else body);
             body2 = (if body1 \<noteq> [] \<and> endsWith ''/'' p then body1 @ ''/'' else body1)
         in if isAbsolute p then ''/'' @ body2 else body2))"

definition posix_join :: "string \<Rightarrow> string \<Rightarrow> string" where
  "posix_join a b =
     (if a = [] \<and> b = [] then ''.''
      else if a = [] then posix_normalize b
      else if b = [] then posix_normalize a
      else posix_normalize (a @ ''/'' @ b))"

definition posix_dirname :: "string \<Rightarrow> string" where
  "posix_dirname p =
     (case p of
        [] \<Rightarrow> ''.''
      | c # cs \<Rightarrow>
          (case dropWhile (\<lambda>x. x \<noteq> CHR ''/'') (dropWhile (\<lambda>x. x = CHR ''/'') (rev cs)) of
             [] \<Rightarrow> (if c = CHR ''/'' then ''/'' else ''.'')
           | _ # older \<Rightarrow> (if c = CHR ''/'' \<and> older = [] then ''//'' else c # rev older)))"

text \<open>\<^verbatim>\<open>path.resolve\<close> of one path against the working directory, as a list of segments.\<close>

definition posix_resolve :: "string \<Rightarrow> string \<Rightarrow> string list" where
  "posix_resolve cwd p =
     normalizeSegments False [] (splitSlash (if isAbsolute p then p else cwd @ ''/'' @ p))"

fun dropCommon :: "string list \<Rightarrow> string list \<Rightarrow> string list \<times> string list" where
  "dropCommon (x # xs) (y # ys) = (if x = y then dropCommon xs ys else (x # xs, y # ys))"
| "dropCommon xs ys = (xs, ys)"

definition posix_relative :: "string \<Rightarrow> string \<Rightarrow> string \<Rightarrow> string" where
  "posix_relative cwd fromPath toPath =
     (case dropCommon (posix_resolve cwd fromPath) (posix_resolve cwd toPath) of
        (fromRest, toRest) \<Rightarrow> joinSlash (replicate (length fromRest) ''..'' @ toRest))"

definition posix :: "string \<Rightarrow> pathModule" where
  "posix cwd = \<lparr> path_join = posix_join, path_dirname = posix_dirname,
                 path_relative = posix_relative cwd, path_sep = ''/'' \<rparr>"

section \<open>The module namer\<close>

text \<open>
  \<^verbatim>\<open>TsickleHost.pathToGoogModuleName\<close> and
  \<^verbatim>\<open>DecoratorDownlevelCompilerHost.pathToGoogModuleName\<close> of \<^verbatim>\<open>compiler_host.ts\<close>.
  They differ in the expression \<^verbatim>\<open>dist\<close> only:
  \<^verbatim>\<open>/dist\/packages-dist\/([^\/]+)\/esm\/(.*)/\<close> in the first,
  \<^verbatim>\<open>/dist\/packages-closure\/([^\/]+)\/(.*)/\<close> in the second.
\<close>

definition isRelative :: "string \<Rightarrow> bool" where
  "isRelative importPath = (case importPath of [] \<Rightarrow> False | c # _ \<Rightarrow> c = CHR ''.'')"

definition resolveImport :: "pathModule \<Rightarrow> string \<Rightarrow> string \<Rightarrow> string" where
  "resolveImport pm context importPath =
     (let importPath1 = replaceSuffix ''.js'' [] importPath
      in if isRelative importPath1
         then path_join pm (path_dirname pm context) importPath1
         else importPath1)"

definition moduleNameOf :: "string \<Rightarrow> string" where
  "moduleNameOf importPath =
     replaceOtherChars (replaceFirstChar (replaceSlashes importPath))"

definition TsickleHost_pathToGoogModuleName :: "pathModule \<Rightarrow> string \<Rightarrow> string \<Rightarrow> string" where
  "TsickleHost_pathToGoogModuleName pm context importPath =
     (let importPath2 = resolveImport pm context importPath;
          importPath3 =
            (case replaceDist ''dist/packages-dist/'' ''/esm/'' importPath2 of
               Some replaced \<Rightarrow> replaceSuffix ''/index'' [] replaced
             | None \<Rightarrow> importPath2)
      in moduleNameOf importPath3)"

definition DecoratorDownlevelCompilerHost_pathToGoogModuleName ::
  "pathModule \<Rightarrow> string \<Rightarrow> string \<Rightarrow> string" where
  "DecoratorDownlevelCompilerHost_pathToGoogModuleName pm context importPath =
     (let importPath2 = resolveImport pm context importPath;
          importPath3 =
            (case replaceDist ''dist/packages-closure/'' ''/'' importPath2 of
               Some replaced \<Rightarrow> replaceSuffix ''/index'' [] replaced
             | None \<Rightarrow> importPath2)
      in moduleNameOf importPath3)"

section \<open>Effects and errors of the compiler hosts\<close>

text \<open>
  A host operation is run for its effects on collaborators outside the repository: the
  inner host, the metadata collector, the file system, the console. The model returns the
  trace of these calls, in order, and how the operation ends: \<open>Inr\<close> for a return,
  \<open>Inl\<close> for the exception that leaves it.
\<close>

datatype error =
    MetadataEmitRequiresSourceFiles
  | BundledEmitNotSupported
  | TypeError
  | Thrown string

datatype sourceFile =
  SourceFile (sf_fileName: string) (sf_text: string) (sf_languageVersion: nat)
    (sf_setParentNodes: bool) (sf_original: "sourceFile option")

text \<open>\<^verbatim>\<open>ts.createSourceFile(fileName, text, languageVersion, setParentNodes)\<close>.\<close>

definition createSourceFile :: "string \<Rightarrow> string \<Rightarrow> nat \<Rightarrow> bool \<Rightarrow> sourceFile" where
  "createSourceFile fileName text languageVersion setParentNodes =
     SourceFile fileName text languageVersion setParentNodes None"

text \<open>An \<^verbatim>\<open>onError\<close> callback, known by the identity of the function object.\<close>

datatype callback = Callback nat

text \<open>
  The two collectors of \<^verbatim>\<open>MetadataWriterHost\<close>:
  \<^verbatim>\<open>new MetadataCollector({quotedNames: true})\<close> and \<^verbatim>\<open>new MetadataCollector({version: 1})\<close>.
\<close>

datatype collector = QuotedNames | Version1

text \<open>
  The calls recorded in a trace: \<^verbatim>\<open>this.delegate.writeFile\<close> with its five arguments,
  \<^verbatim>\<open>getMetadata\<close> of one of the collectors, \<^verbatim>\<open>writeFileSync\<close> with path and text,
  \<^verbatim>\<open>tsickle.convertDecorators\<close> with the source file it is given, \<^verbatim>\<open>console.error\<close> with
  its arguments or with the stack of an exception, \<^verbatim>\<open>console.log\<close>, and the write of the
  code generator through its host (file name, text, byte order mark and source units; the
  callback it passes is the empty function).
\<close>

datatype event =
    DelegateWriteFile string string bool "callback option" "sourceFile list option"
  | GetMetadata collector sourceFile bool
  | WriteFileSync string string
  | ConvertDecorators "sourceFile option"
  | ConsoleError "string list"
  | ConsoleErrorStack error
  | ConsoleLog string
  | HostWriteFile string string bool "sourceFile option list"

type_synonym 'a action = "event list \<times> (error + 'a)"

definition andThen :: "'a action \<Rightarrow> ('a \<Rightarrow> 'b action) \<Rightarrow> 'b action" where
  "andThen a f =
     (case a of
        (tr, Inl e) \<Rightarrow> (tr, Inl e)
      | (tr, Inr x) \<Rightarrow> (case f x of (tr', r) \<Rightarrow> (tr @ tr', r)))"

definition returns :: "'a \<Rightarrow> 'a action" where
  "returns x = ([], Inr x)"

definition throws :: "error \<Rightarrow> 'a action" where
  "throws e = ([], Inl e)"

text \<open>A call of a collaborator that returns nothing: the event, then its exception if any.\<close>

definition call :: "event \<Rightarrow> error option \<Rightarrow> unit action" where
  "call ev outcome = ([ev], (case outcome of Some e \<Rightarrow> Inl e | None \<Rightarrow> Inr ()))"

text \<open>A call of a collaborator that returns a value.\<close>

definition callFor :: "event \<Rightarrow> error + 'a \<Rightarrow> 'a action" where
  "callFor ev outcome = ([ev], outcome)"

section \<open>The metadata-writing host\<close>

text \<open>
  The collaborators of \<^verbatim>\<open>MetadataWriterHost\<close> (the second class of that name in
  \<^verbatim>\<open>compiler_host.ts\<close>, with \<^verbatim>\<open>IGNORED_FILES = /\.ngfactory\.js$|\.ngstyle\.js$/\<close>): the inner
  host's \<^verbatim>\<open>writeFile\<close>, the collectors' \<^verbatim>\<open>getMetadata\<close>, \<^verbatim>\<open>JSON.stringify\<close>,
  \<^verbatim>\<open>writeFileSync\<close> and the option \<^verbatim>\<open>strictMetadataEmit\<close>. A collaborator may throw;
  \<^verbatim>\<open>getMetadata\<close> may return \<^verbatim>\<open>undefined\<close>.
\<close>

record 'm writerEnv =
  delegate_writeFile ::
    "string \<Rightarrow> string \<Rightarrow> bool \<Rightarrow> callback option \<Rightarrow> sourceFile list option \<Rightarrow> error option"
  getMetadata :: "collector \<Rightarrow> sourceFile \<Rightarrow> bool \<Rightarrow> error + 'm option"
  stringify :: "'m list \<Rightarrow> string"
  writeFileSync :: "string \<Rightarrow> string \<Rightarrow> error option"
  strictMetadataEmit :: bool

definition IGNORED_FILES :: "string \<Rightarrow> bool" where
  "IGNORED_FILES fileName = (endsWith ''.ngfactory.js'' fileName \<or> endsWith ''.ngstyle.js'' fileName)"

text \<open>The loop \<^verbatim>\<open>while (collectableFile.original) collectableFile = collectableFile.original\<close>.\<close>

fun originalOf :: "sourceFile \<Rightarrow> sourceFile" where
  "originalOf (SourceFile f t v p None) = SourceFile f t v p None"
| "originalOf (SourceFile f t v p (Some orig)) = originalOf orig"

text \<open>
  \<^verbatim>\<open>writeMetadata(emitFilePath, sourceFile)\<close>. The second argument is \<^verbatim>\<open>sourceFiles[0]\<close>,
  \<^verbatim>\<open>undefined\<close> for an empty array; reading \<^verbatim>\<open>original\<close> of it then throws.
\<close>

definition writeMetadata :: "'m writerEnv \<Rightarrow> string \<Rightarrow> sourceFile option \<Rightarrow> unit action" where
  "writeMetadata env emitFilePath sourceFile =
     (if endsWith ''.js'' emitFilePath then
        (let path = replaceSuffix ''.js'' ''.metadata.json'' emitFilePath
         in case sourceFile of
              None \<Rightarrow> throws TypeError
            | Some sf \<Rightarrow>
                (let collectableFile = originalOf sf
                 in andThen
                      (callFor (GetMetadata QuotedNames collectableFile (strictMetadataEmit env))
                         (getMetadata env QuotedNames collectableFile (strictMetadataEmit env)))
                      (\<lambda>metadata.
                         andThen
                           (callFor (GetMetadata Version1 collectableFile False)
                              (getMetadata env Version1 collectableFile False))
                           (\<lambda>metadata1.
                              (let metadatas = List.map_filter id [metadata, metadata1]
                               in if metadatas \<noteq> [] then
                                    (let metadataText = stringify env metadatas
                                     in call (WriteFileSync path metadataText)
                                          (writeFileSync env path metadataText))
                                  else returns ())))))
      else returns ())"

text \<open>\<^verbatim>\<open>MetadataWriterHost.writeFile\<close>.\<close>

definition MetadataWriterHost_writeFile ::
  "'m writerEnv \<Rightarrow> string \<Rightarrow> string \<Rightarrow> bool \<Rightarrow> callback option \<Rightarrow> sourceFile list option
     \<Rightarrow> unit action" where
  "MetadataWriterHost_writeFile env fileName data writeByteOrderMark onError sourceFiles =
     (if endsWith ''.d.ts'' fileName then
        call (DelegateWriteFile fileName data writeByteOrderMark onError sourceFiles)
          (delegate_writeFile env fileName data writeByteOrderMark onError sourceFiles)
      else if IGNORED_FILES fileName then returns ()
      else
        (case sourceFiles of
           None \<Rightarrow> throws MetadataEmitRequiresSourceFiles
         | Some sfs \<Rightarrow>
             (if length sfs > 1 then throws BundledEmitNotSupported
              else writeMetadata env fileName (case sfs of [] \<Rightarrow> None | sf # _ \<Rightarrow> Some sf))))"

section \<open>The annotation conversion host\<close>

text \<open>
  \<^verbatim>\<open>DecoratorDownlevelCompilerHost.getSourceFile\<close>. Its collaborators are the inner
  host's \<^verbatim>\<open>readFile\<close>, the held program's \<^verbatim>\<open>getSourceFile\<close> and
  \<^verbatim>\<open>tsickle.convertDecorators\<close> (with the type checker of the held program), which may
  throw. The state of the host is its list \<^verbatim>\<open>diagnostics\<close>.
\<close>

datatype diagnostic = Diagnostic string

record converted =
  conv_output :: string
  conv_diagnostics :: "diagnostic list option"

record downlevelEnv =
  delegate_readFile :: "string \<Rightarrow> string"
  program_getSourceFile :: "string \<Rightarrow> sourceFile option"
  convertDecorators :: "sourceFile option \<Rightarrow> error + converted"

definition ANNOTATION_SUPPORT :: string where
  "ANNOTATION_SUPPORT =
     [CHR 0x0A] @ ''interface DecoratorInvocation {'' @ [CHR 0x0A]
     @ ''  type: Function;'' @ [CHR 0x0A]
     @ ''  args?: any[];'' @ [CHR 0x0A]
     @ ''}'' @ [CHR 0x0A]"

definition DecoratorDownlevelCompilerHost_getSourceFile ::
  "downlevelEnv \<Rightarrow> diagnostic list \<Rightarrow> string \<Rightarrow> nat
     \<Rightarrow> diagnostic list \<times> event list \<times> (error + sourceFile)" where
  "DecoratorDownlevelCompilerHost_getSourceFile env diagnostics fileName languageVersion =
     (let originalContent = delegate_readFile env fileName
      in if endsWith ''.d.ts'' fileName then
           (diagnostics, [], Inr (createSourceFile fileName originalContent languageVersion True))
         else
           (case convertDecorators env (program_getSourceFile env fileName) of
              Inl e \<Rightarrow>
                (diagnostics,
                 [ConvertDecorators (program_getSourceFile env fileName),
                  ConsoleError [''Cannot convertDecorators on file'', fileName]],
                 Inl e)
            | Inr conv \<Rightarrow>
                (let diagnostics1 =
                       (case conv_diagnostics conv of
                          Some ds \<Rightarrow> diagnostics @ ds
                        | None \<Rightarrow> diagnostics);
                     newContent = conv_output conv @ ANNOTATION_SUPPORT
                 in (diagnostics1, [ConvertDecorators (program_getSourceFile env fileName)],
                     Inr (createSourceFile fileName newContent languageVersion True)))))"

text \<open>Collaborators and inputs for the concrete runs.\<close>

definition exampleSourceFile :: sourceFile where
  "exampleSourceFile =
     SourceFile ''app.ts'' ''var x;'' 1 True
       (Some (SourceFile ''app.ts'' ''let x = 1;'' 1 True None))"

definition exampleWriterEnv :: "string writerEnv" where
  "exampleWriterEnv =
     \<lparr> delegate_writeFile = (\<lambda>fileName data bom onError sourceFiles. None),
       getMetadata = (\<lambda>c sf strict. Inr (if c = QuotedNames then Some ''{v3}'' else None)),
       stringify = (\<lambda>ms. ''['' @ concat ms @ '']''),
       writeFileSync = (\<lambda>path text. None),
       strictMetadataEmit = False \<rparr>"

definition exampleDownlevelEnv :: downlevelEnv where
  "exampleDownlevelEnv =
     \<lparr> delegate_readFile = (\<lambda>fileName. ''declare var x: number;''),
       program_getSourceFile = (\<lambda>fileName. None),
       convertDecorators = (\<lambda>sf. Inl (Thrown ''no source file'')) \<rparr>"

section \<open>The code generator\<close>

subsection \<open>The textual patch of the generated source\<close>

text \<open>
  One attempt, at the start of \<open>s\<close>, to match \<^verbatim>\<open>/this\.parent\.[^\.]+\.transform/\<close>
  (with \<open>lit\<close> the text \<^verbatim>\<open>this.parent.\<close>) or
  \<^verbatim>\<open>/this\.parent\.parent\.[^\.]+\.transform/\<close> (with \<open>lit\<close> the text
  \<^verbatim>\<open>this.parent.parent.\<close>). The class takes the longest run without a dot; a shorter one
  is never followed by a dot. The result is the matched text.
\<close>

definition matchErrorAt :: "string \<Rightarrow> string \<Rightarrow> string option" where
  "matchErrorAt lit s =
     (if startsWith lit s then
        (let t = drop (length lit) s;
             member = takeWhile (\<lambda>c. c \<noteq> CHR ''.'') t;
             u = dropWhile (\<lambda>c. c \<noteq> CHR ''.'') t
         in if member \<noteq> [] \<and> startsWith ''.transform'' u
            then Some (lit @ member @ ''.transform'') else None)
      else None)"

text \<open>
  \<^verbatim>\<open>source.match(errorRegex)\<close> with the flag \<^verbatim>\<open>g\<close>: the matches from left to right, the
  search going on after the end of each; the empty list stands for \<^verbatim>\<open>null\<close>.
\<close>

function matchAllError :: "string \<Rightarrow> string \<Rightarrow> string list" where
  "matchAllError lit [] = []"
| "matchAllError lit (c # cs) =
     (case matchErrorAt lit (c # cs) of
        Some m \<Rightarrow> m # matchAllError lit (drop (length m) (c # cs))
      | None \<Rightarrow> matchAllError lit cs)"
  by pat_completeness auto
termination
  by (relation "measure (\<lambda>(lit, s). length s)")
     (auto simp: matchErrorAt_def Let_def split: if_splits)

text \<open>
  \<^verbatim>\<open>fixRegex.exec(source)\<close> for \<^verbatim>\<open>/<(.*?)>this\.parent/\<close> and
  \<^verbatim>\<open>/<(.*?)>this\.parent\.parent/\<close>, with \<open>lit\<close> the text from \<^verbatim>\<open>>\<close> on. The lazy
  group takes the shortest run without a line terminator after which \<open>lit\<close> follows. The
  result is the group \<^verbatim>\<open>fixMatch[1]\<close> of the leftmost match.
\<close>

fun lazyUntil :: "string \<Rightarrow> string \<Rightarrow> string option" where
  "lazyUntil lit [] = (if startsWith lit [] then Some [] else None)"
| "lazyUntil lit (c # cs) =
     (if startsWith lit (c # cs) then Some []
      else if isLineTerminator c then None
      else map_option (\<lambda>captured. c # captured) (lazyUntil lit cs))"

fun execFix :: "string \<Rightarrow> string \<Rightarrow> string option" where
  "execFix lit [] = None"
| "execFix lit (c # cs) =
     (if c = CHR ''<'' then
        (case lazyUntil lit cs of
           Some captured \<Rightarrow> Some captured
         | None \<Rightarrow> execFix lit cs)
      else execFix lit cs)"

text \<open>
  \<^verbatim>\<open>source.replace(searchString, replaceValue)\<close> with two strings: the first occurrence of
  the search string is replaced, and in the replacement \<^verbatim>\<open>$$\<close> stands for a dollar sign,
  \<^verbatim>\<open>$&\<close> for the matched text, \<^verbatim>\<open>$`\<close> for the text before the match and \<^verbatim>\<open>$'\<close> for the
  text after it. There is no group, so a dollar sign before a digit stands for itself.
\<close>

fun findFirst :: "string \<Rightarrow> string \<Rightarrow> (string \<times> string) option" where
  "findFirst pat [] = (if startsWith pat [] then Some ([], []) else None)"
| "findFirst pat (c # cs) =
     (if startsWith pat (c # cs) then Some ([], drop (length pat) (c # cs))
      else map_option (\<lambda>(pre, post). (c # pre, post)) (findFirst pat cs))"

fun getSubstitution :: "string \<Rightarrow> string \<Rightarrow> string \<Rightarrow> string \<Rightarrow> string" where
  "getSubstitution matched pre post (c1 # c2 # rest) =
     (if c1 = CHR ''$'' then
        (if c2 = CHR ''$'' then CHR ''$'' # getSubstitution matched pre post rest
         else if c2 = CHR ''&'' then matched @ getSubstitution matched pre post rest
         else if c2 = CHR 0x60 then pre @ getSubstitution matched pre post rest
         else if c2 = CHR 0x27 then post @ getSubstitution matched pre post rest
         else c1 # getSubstitution matched pre post (c2 # rest))
      else c1 # getSubstitution matched pre post (c2 # rest))"
| "getSubstitution matched pre post cs = cs"

definition stringReplace :: "string \<Rightarrow> string \<Rightarrow> string \<Rightarrow> string" where
  "stringReplace searchString replaceValue s =
     (case findFirst searchString s of
        None \<Rightarrow> s
      | Some (pre, post) \<Rightarrow> pre @ getSubstitution searchString pre post replaceValue @ post)"

text \<open>
  One of the two blocks of \<^verbatim>\<open>codegen\<close> that patch \<^verbatim>\<open>source\<close>: \<open>lit\<close> is the literal text
  of \<^verbatim>\<open>errorRegex\<close> before the class, \<open>castLit\<close> that of \<^verbatim>\<open>fixRegex\<close> after the group, and
  \<open>n\<close> the argument of \<^verbatim>\<open>errorMatch.substr\<close>. Both blocks build the replacement with
  \<^verbatim>\<open>'(<' + fixMatch[1] + '>this.parent)'\<close>.
\<close>

definition fixBlock :: "string \<Rightarrow> string \<Rightarrow> nat \<Rightarrow> string \<Rightarrow> string" where
  "fixBlock lit castLit n source =
     (let errorMatches = matchAllError lit source
      in if errorMatches \<noteq> [] then
           (case execFix castLit source of
              Some fixMatch1 \<Rightarrow>
                foldl (\<lambda>src errorMatch.
                         stringReplace errorMatch
                           (''(<'' @ fixMatch1 @ ''>this.parent)'' @ drop n errorMatch) src)
                  source errorMatches
            | None \<Rightarrow> source)
         else source)"

definition fixSource :: "string \<Rightarrow> string" where
  "fixSource source =
     fixBlock ''this.parent.parent.'' ''>this.parent.parent'' 18
       (fixBlock ''this.parent.'' ''>this.parent'' 11 source)"

subsection \<open>The emit path\<close>

record options =
  basePath :: string
  rootDirs :: "string list option"
  genDir :: string
  trace :: bool

text \<open>The loop that strips \<^verbatim>\<open>'..' + path.sep\<close> from the front, three characters at a time.\<close>

function stripParentDirs :: "string \<Rightarrow> string \<Rightarrow> string" where
  "stripParentDirs sep relativePath =
     (if startsWith (''..'' @ sep) relativePath
      then stripParentDirs sep (drop 3 relativePath)
      else relativePath)"
  by pat_completeness auto
termination
proof (relation "measure (\<lambda>(sep, relativePath). length relativePath)")
  fix sep relativePath :: string
  assume "startsWith (''..'' @ sep) relativePath"
  then have "relativePath \<noteq> []"
    by (auto simp: startsWith_def)
  then show "((sep, drop 3 relativePath), (sep, relativePath))
               \<in> measure (\<lambda>(sep, relativePath). length relativePath)"
    by simp
qed simp

text \<open>
  \<^verbatim>\<open>CodeGenerator.calculateEmitPath\<close>. The result holds the lines printed when the option
  \<^verbatim>\<open>trace\<close> is set, and the path. \<^verbatim>\<open>s.indexOf('.') !== 0\<close> says that \<^verbatim>\<open>s\<close> does not start
  with a dot.
\<close>

definition chooseRoot :: "pathModule \<Rightarrow> string \<Rightarrow> string \<Rightarrow> string \<Rightarrow> string" where
  "chooseRoot pm filePath root eachRootDir =
     (if \<not> startsWith ''.'' (path_relative pm eachRootDir filePath) then eachRootDir else root)"

definition calculateEmitPath :: "pathModule \<Rightarrow> options \<Rightarrow> string \<Rightarrow> event list \<times> string" where
  "calculateEmitPath pm opts filePath =
     (let dirs = (case rootDirs opts of Some ds \<Rightarrow> ds | None \<Rightarrow> []);
          logs = (if trace opts
                  then map (\<lambda>eachRootDir.
                         ConsoleLog (''Check if '' @ filePath @ '' is under rootDirs element ''
                                     @ eachRootDir)) dirs
                  else []);
          root = foldl (chooseRoot pm filePath) (basePath opts) dirs;
          relativePath = stripParentDirs (path_sep pm) (path_relative pm root filePath)
      in (logs, path_join pm (genDir opts) relativePath))"

subsection \<open>Reading the metadata of a file\<close>

datatype annotation = NgModuleMetadata | ComponentMetadata | OtherAnnotation

record 'sym fileMetadata =
  fm_fileUrl :: string
  fm_components :: "'sym list"
  fm_ngModules :: "'sym list"

record generatedModule =
  gm_moduleUrl :: string
  gm_source :: string

text \<open>How a promise settles: rejected with a reason or fulfilled with a value.\<close>

datatype 'a settlement = Rejected error | Fulfilled 'a

text \<open>
  The collaborators of \<^verbatim>\<open>CodeGenerator\<close>. Each call of the reflector, of the reflector
  host, of \<^verbatim>\<open>analyzeModules\<close> and of \<^verbatim>\<open>compile\<close> is made by \<^verbatim>\<open>codegen\<close> outside any
  promise and any \<^verbatim>\<open>try\<close>, so each may throw (\<open>Inl\<close>) or return (\<open>Inr\<close>). Module metadata
  is \<^verbatim>\<open>undefined\<close> or an object whose field \<^verbatim>\<open>metadata\<close> is \<^verbatim>\<open>undefined\<close> or lists, by
  symbol, the \<^verbatim>\<open>__symbolic\<close> tag of each entry (\<open>None\<close> for an entry without one). What
  \<^verbatim>\<open>compile\<close> returns is a promise, given by the way it settles later. The write through
  the host may throw.
\<close>

record ('sym, 'an) codegenEnv =
  cg_path :: pathModule
  cg_options :: options
  cg_sourceFileNames :: "string list"
  cg_getCanonicalFileName :: "string \<Rightarrow> error + string"
  cg_getModuleMetadata :: "string \<Rightarrow> error + (string \<times> string option) list option option"
  cg_findDeclaration :: "string \<Rightarrow> string \<Rightarrow> string \<Rightarrow> error + 'sym"
  cg_annotations :: "'sym \<Rightarrow> error + annotation list"
  cg_analyzeModules :: "'sym list \<Rightarrow> error + 'an"
  cg_compile ::
    "string \<Rightarrow> 'an \<Rightarrow> 'sym list \<Rightarrow> 'sym list \<Rightarrow> error + generatedModule list settlement"
  cg_getSourceFile :: "string \<Rightarrow> sourceFile option"
  cg_host_writeFile :: "string \<Rightarrow> string \<Rightarrow> bool \<Rightarrow> sourceFile option list \<Rightarrow> error option"


definition PREAMBLE :: string where
  "PREAMBLE =
     ''/**'' @ [CHR 0x0A]
     @ '' * This file is generated by the Angular 2 template compiler.'' @ [CHR 0x0A]
     @ '' * Do not edit.'' @ [CHR 0x0A]
     @ '' */'' @ [CHR 0x0A]
     @ '' /* tslint:disable */'' @ [CHR 0x0A]
     @ [CHR 0x0A]"






subsection \<open>Generating and writing\<close>

text \<open>
  The body of \<^verbatim>\<open>generatedModules.forEach\<close>: the emit path, the patch of the source and the
  write through the host, which may throw.
\<close>

definition writeGenerated ::
  "('sym, 'an) codegenEnv \<Rightarrow> 'sym fileMetadata \<Rightarrow> generatedModule \<Rightarrow> unit action" where
  "writeGenerated env fileMeta generatedModule =
     (let sourceFile = cg_getSourceFile env (fm_fileUrl fileMeta);
          (logs, emitPath) = calculateEmitPath (cg_path env) (cg_options env)
                               (gm_moduleUrl generatedModule);
          source = fixSource (gm_source generatedModule)
      in andThen (logs, Inr ())
           (\<lambda>_. call (HostWriteFile emitPath (PREAMBLE @ source) False [sourceFile])
                  (cg_host_writeFile env emitPath (PREAMBLE @ source) False [sourceFile])))"


text \<open>
  \<^verbatim>\<open>fileMetas.map((fileMeta) => this.compiler.compile(...).then(...))\<close>, as far as it runs
  at once: \<^verbatim>\<open>compile\<close> is called for one file after the other and each promise it returns
  gets its callback. When a call throws, the loop ends there: the files before it have
  their promises, the file itself and the files after it have none. The result lists the
  files that have a promise, each with the way its \<^verbatim>\<open>compile\<close> promise settles, and the
  exception if there is one.
\<close>

fun startTasks ::
  "('sym, 'an) codegenEnv \<Rightarrow> 'an \<Rightarrow> 'sym fileMetadata list
     \<Rightarrow> ('sym fileMetadata \<times> generatedModule list settlement) list \<times> error option" where
  "startTasks env analyzedNgModules [] = ([], None)"
| "startTasks env analyzedNgModules (fileMeta # fileMetas) =
     (case cg_compile env (fm_fileUrl fileMeta) analyzedNgModules (fm_components fileMeta)
             (fm_ngModules fileMeta) of
        Inl e \<Rightarrow> ([], Some e)
      | Inr promise \<Rightarrow>
          (case startTasks env analyzedNgModules fileMetas of
             (started, thrown) \<Rightarrow> ((fileMeta, promise) # started, thrown)))"


subsection \<open>The promise jobs\<close>

text \<open>
  \<^verbatim>\<open>Promise.all(promises).catch((e) => { console.error(e.stack); })\<close> runs as jobs of the
  job queue, first in, first out. When the \<^verbatim>\<open>compile\<close> promise of the file at position
  \<open>i\<close> settles, the reaction of its \<^verbatim>\<open>then\<close> is queued (\<open>TaskReaction i\<close>). That job runs
  the callback and settles the promise of the file, which queues the reaction that
  \<^verbatim>\<open>Promise.all\<close> has registered on it (\<open>AllReaction i\<close>, with the settlement). That job
  counts a fulfilment, and fulfils the aggregate with the last one, or rejects the
  aggregate if it is still pending; a settled aggregate queues the reaction of \<^verbatim>\<open>catch\<close>
  (\<open>CatchReaction\<close>), which prints the reason of a rejection and fulfils the promise that
  \<^verbatim>\<open>codegen\<close> returns.
\<close>

datatype job = TaskReaction nat | AllReaction nat "unit settlement" | CatchReaction



text \<open>
  The run time decides when a \<^verbatim>\<open>compile\<close> promise settles and how many jobs run in
  between: a schedule is a list of such steps. A promise settles once.
\<close>

datatype step = Settle nat | RunJob









subsection \<open>The generator\<close>


text \<open>
  \<^verbatim>\<open>CodeGenerator.codegen\<close>: the trace of the call and of the jobs it leaves behind, and how
  the call ends. It throws, or it returns a promise, given with its state when every
  \<^verbatim>\<open>compile\<close> promise has settled and the queue is empty (\<open>None\<close> for a promise still
  pending). When the call throws, the files that have their promise by then still get
  their reactions, but there is no \<^verbatim>\<open>Promise.all\<close> and no \<^verbatim>\<open>catch\<close>. A reason of a
  rejection is an exception of the type above: the handler prints its \<^verbatim>\<open>stack\<close>.
\<close>

datatype outcome = SyncThrow error | ReturnsPromise "unit settlement option"


text \<open>
  What the statements below name: the emit path of a generated module, the events that
  are a reason printed by the handler of \<^verbatim>\<open>catch\<close>, and the order in which the promises of
  \<open>n\<close> files settle under a schedule.
\<close>

definition emitPathOf :: "('sym, 'an) codegenEnv \<Rightarrow> generatedModule \<Rightarrow> string" where
  "emitPathOf env generatedModule =
     snd (calculateEmitPath (cg_path env) (cg_options env) (gm_moduleUrl generatedModule))"





text \<open>
  Collaborators for the concrete runs. Of three files, the \<^verbatim>\<open>compile\<close> promises of the
  first and of the third are rejected; in the second environment the call of \<^verbatim>\<open>compile\<close>
  for the third file throws instead.
\<close>

definition exampleGenerated :: generatedModule where
  "exampleGenerated =
     \<lparr> gm_moduleUrl = ''/proj/b.ngfactory.ts'', gm_source = ''export const x = 1;'' \<rparr>"

definition exampleFileMeta :: "string fileMetadata" where
  "exampleFileMeta =
     \<lparr> fm_fileUrl = ''/proj/b.ts'', fm_components = [''Cmp''], fm_ngModules = [] \<rparr>"

definition exampleCodegenEnv :: "(string, unit) codegenEnv" where
  "exampleCodegenEnv =
     \<lparr> cg_path = posix ''/'',
       cg_options = \<lparr> basePath = ''/proj'', rootDirs = None, genDir = ''/proj/gen'',
                      trace = False \<rparr>,
       cg_sourceFileNames = [''/proj/a.ts'', ''/proj/a.ngfactory.ts'', ''/proj/b.ts'', ''/proj/c.ts''],
       cg_getCanonicalFileName = (\<lambda>f. Inr f),
       cg_getModuleMetadata = (\<lambda>f. Inr (Some (Some [(''Cmp'', Some ''class'')]))),
       cg_findDeclaration = (\<lambda>f symbol g. Inr symbol),
       cg_annotations = (\<lambda>s. Inr [ComponentMetadata]),
       cg_analyzeModules = (\<lambda>ms. Inr ()),
       cg_compile = (\<lambda>fileUrl an cs ms.
          if fileUrl = ''/proj/a.ts'' then Inr (Rejected (Thrown ''template parse error in a''))
          else if fileUrl = ''/proj/c.ts''
          then Inr (Rejected (Thrown ''template parse error in c''))
          else Inr (Fulfilled [exampleGenerated])),
       cg_getSourceFile = (\<lambda>f. None),
       cg_host_writeFile = (\<lambda>f d b sfs. None) \<rparr>"


subsection \<open>The patch in the words of the specification\<close>

text \<open>
  Every occurrence of \<^verbatim>\<open>this.parent.<member>.transform\<close> is rewritten, in place and from
  left to right, to \<^verbatim>\<open>(<T>this.parent).<member>.transform\<close>: the text the code generator
  is compared with below.
\<close>

function rewriteEveryOccurrence :: "string \<Rightarrow> string \<Rightarrow> string" where
  "rewriteEveryOccurrence T [] = []"
| "rewriteEveryOccurrence T (c # cs) =
     (case matchErrorAt ''this.parent.'' (c # cs) of
        Some m \<Rightarrow>
          ''(<'' @ T @ ''>this.parent)'' @ drop 11 m
            @ rewriteEveryOccurrence T (drop (length m) (c # cs))
      | None \<Rightarrow> c # rewriteEveryOccurrence T cs)"
  by pat_completeness auto
termination
  by (relation "measure (\<lambda>(T, s). length s)")
     (auto simp: matchErrorAt_def Let_def split: if_splits)

text \<open>
  Two properties of a text \<open>D\<close> followed by a text \<open>R\<close>, for the proofs: the expression
  matches at no position of \<open>D\<close>, and its literal part starts at no position of \<open>D\<close>.
\<close>

definition noMatchBefore :: "string \<Rightarrow> string \<Rightarrow> string \<Rightarrow> bool" where
  "noMatchBefore lit D R = (\<forall>p<length D. matchErrorAt lit (drop p (D @ R)) = None)"

fun noStartIn :: "string \<Rightarrow> string \<Rightarrow> string \<Rightarrow> bool" where
  "noStartIn lit [] R = True"
| "noStartIn lit (c # A) R = (\<not> startsWith lit (c # A @ R) \<and> noStartIn lit A R)"

subsection \<open>The state of the job queue\<close>

text \<open>
  What the proofs say of a state of the promises. The files whose \<^verbatim>\<open>then\<close> reaction is
  queued, the files whose \<^verbatim>\<open>Promise.all\<close> reaction is queued (with the settlement it
  carries) and the number of queued reactions of \<^verbatim>\<open>catch\<close>:
\<close>

fun tasksQueued :: "job list \<Rightarrow> nat list" where
  "tasksQueued [] = []"
| "tasksQueued (TaskReaction i # queue) = i # tasksQueued queue"
| "tasksQueued (j # queue) = tasksQueued queue"

fun allsQueued :: "job list \<Rightarrow> (nat \<times> unit settlement) list" where
  "allsQueued [] = []"
| "allsQueued (AllReaction i s # queue) = (i, s) # allsQueued queue"
| "allsQueued (j # queue) = allsQueued queue"

fun catchesQueued :: "job list \<Rightarrow> nat" where
  "catchesQueued [] = 0"
| "catchesQueued (CatchReaction # queue) = Suc (catchesQueued queue)"
| "catchesQueued (j # queue) = catchesQueued queue"









section \<open>Properties of the module namer\<close>

lemma replaceOtherChars_all: "list_all isIdentPart (replaceOtherChars s)"
  by (induction s) (auto simp: replaceOtherChars_def isIdentPart_def)

lemma isIdentStart_Part: "isIdentStart c \<Longrightarrow> isIdentPart c"
  by (auto simp: isIdentStart_def isIdentPart_def)

lemma replaceFirstChar_start:
  "t \<noteq> [] \<Longrightarrow> \<exists>d ds. replaceFirstChar t = d # ds \<and> isIdentStart d"
  by (cases t) (auto simp: isIdentStart_def)

lemma moduleNameOf_valid: "s \<noteq> [] \<Longrightarrow> validIdentifier (moduleNameOf s)"
proof -
  assume "s \<noteq> []"
  then have "replaceSlashes s \<noteq> []" by (simp add: replaceSlashes_def)
  then obtain d ds where d: "replaceFirstChar (replaceSlashes s) = d # ds" "isIdentStart d"
    using replaceFirstChar_start by blast
  then have "moduleNameOf s = d # replaceOtherChars ds"
    by (simp add: moduleNameOf_def replaceOtherChars_def isIdentStart_Part)
  with d(2) show ?thesis by (simp add: replaceOtherChars_all)
qed

lemma moduleNameOf_Nil: "moduleNameOf [] = []"
  by (simp add: moduleNameOf_def replaceSlashes_def replaceOtherChars_def)

text \<open>A replaced match holds the prefix \<^verbatim>\<open>@angular/\<close>, a package name and a slash.\<close>

lemma replaceDist_length: "replaceDist lit1 lit2 s = Some r \<Longrightarrow> 11 \<le> length r"
proof (induction s arbitrary: r)
  case Nil
  then show ?case
    by (auto simp: matchDistAt_def Let_def split: option.splits if_splits)
next
  case (Cons c cs)
  show ?case
  proof (cases "matchDistAt lit1 lit2 (c # cs)")
    case None
    with Cons.prems obtain r' where "replaceDist lit1 lit2 cs = Some r'" "r = c # r'"
      by auto
    with Cons.IH show ?thesis by fastforce
  next
    case (Some m)
    obtain pkg impt rest where m: "m = (pkg, impt, rest)" by (cases m)
    from Some m have "pkg \<noteq> []"
      by (auto simp: matchDistAt_def Let_def split: if_splits)
    then have "1 \<le> length pkg" by (cases pkg) auto
    with Cons.prems Some m show ?thesis by auto
  qed
qed

lemma replaceSuffix_index_nonempty: "11 \<le> length r \<Longrightarrow> replaceSuffix ''/index'' [] r \<noteq> []"
  by (auto simp: replaceSuffix_def)

lemma afterDist_nonempty:
  assumes "p \<noteq> []"
  shows "(case replaceDist lit1 lit2 p of
            Some replaced \<Rightarrow> replaceSuffix ''/index'' [] replaced | None \<Rightarrow> p) \<noteq> []"
proof (cases "replaceDist lit1 lit2 p")
  case None
  with assms show ?thesis by simp
next
  case (Some r)
  from replaceSuffix_index_nonempty [OF replaceDist_length [OF Some]] Some
  show ?thesis by simp
qed

lemma replaceDist_Nil: "lit1 \<noteq> [] \<Longrightarrow> replaceDist lit1 lit2 [] = None"
  by (simp add: matchDistAt_def startsWith_def)

lemma posix_normalize_nonempty: "posix_normalize p \<noteq> []"
  by (auto simp: posix_normalize_def Let_def)

lemma posix_join_nonempty: "path_join (posix cwd) a b \<noteq> []"
  by (simp add: posix_def posix_join_def posix_normalize_nonempty)

lemma resolveImport_nonempty:
  assumes "replaceSuffix ''.js'' [] importPath \<noteq> []" and "\<forall>a b. path_join pm a b \<noteq> []"
  shows "resolveImport pm context importPath \<noteq> []"
  using assms by (simp add: resolveImport_def Let_def)

lemma resolveImport_empty:
  assumes "replaceSuffix ''.js'' [] importPath = []"
  shows "resolveImport pm context importPath = []"
  using assms by (simp add: resolveImport_def Let_def isRelative_def)

lemma isRelative_strip:
  assumes "\<not> startsWith ''.'' s"
  shows "\<not> isRelative (replaceSuffix ''.js'' [] s)"
proof (cases s)
  case Nil
  then show ?thesis by (simp add: isRelative_def replaceSuffix_def endsWith_def)
next
  case (Cons c cs)
  with assms have c: "c \<noteq> CHR ''.''" by (simp add: startsWith_def)
  show ?thesis
  proof (cases "endsWith ''.js'' s")
    case False
    with Cons c show ?thesis by (simp add: isRelative_def replaceSuffix_def)
  next
    case True
    define k where "k = length s - length ''.js''"
    have "take k s = [] \<or> (\<exists>ds. take k s = c # ds)"
      using Cons by (cases k) auto
    moreover have "replaceSuffix ''.js'' [] s = take k s"
      using True by (simp add: replaceSuffix_def k_def)
    ultimately show ?thesis using c
      by (auto simp: isRelative_def)
  qed
qed

text \<open>
  C1, as the claim states it, fails: an import specifier that is empty once the trailing
  \<^verbatim>\<open>.js\<close> is stripped is mapped to the empty string by both hosts, and the empty string
  is not an identifier. No replacement of the function inserts a character:
  \<^verbatim>\<open>/^[^a-zA-Z_$]/\<close> needs a first character to replace.
\<close>

theorem pathToGoogModuleName_empty_counterexample:
  "\<not> validIdentifier (TsickleHost_pathToGoogModuleName (posix ''/'') ''some-file'' ''.js'')
   \<and> \<not> validIdentifier
         (DecoratorDownlevelCompilerHost_pathToGoogModuleName (posix ''/'') ''some-file'' [])"
  by code_simp

text \<open>
  C1, amended. The function is a function of its two arguments and of the path module
  alone (it reads no state and has no failing branch). Provided \<^verbatim>\<open>path.join\<close> never
  returns the empty string (the module's own never does): for every context and every
  import specifier that is not empty after the trailing \<^verbatim>\<open>.js\<close> is stripped, both hosts
  return a string of the grammar \<^verbatim>\<open>[A-Za-z_$][A-Za-z0-9._$]*\<close>; for a specifier that is
  empty after stripping, both return the empty string.
\<close>

theorem pathToGoogModuleName_identifier:
  assumes "\<forall>a b. path_join pm a b \<noteq> []"
  shows "(replaceSuffix ''.js'' [] importPath \<noteq> [] \<longrightarrow>
            validIdentifier (TsickleHost_pathToGoogModuleName pm context importPath)
          \<and> validIdentifier
              (DecoratorDownlevelCompilerHost_pathToGoogModuleName pm context importPath))
       \<and> (replaceSuffix ''.js'' [] importPath = [] \<longrightarrow>
            TsickleHost_pathToGoogModuleName pm context importPath = []
          \<and> DecoratorDownlevelCompilerHost_pathToGoogModuleName pm context importPath = [])"
proof (intro conjI impI)
  assume "replaceSuffix ''.js'' [] importPath \<noteq> []"
  then have ne: "resolveImport pm context importPath \<noteq> []"
    using assms by (rule resolveImport_nonempty)
  show "validIdentifier (TsickleHost_pathToGoogModuleName pm context importPath)"
    unfolding TsickleHost_pathToGoogModuleName_def Let_def
    by (rule moduleNameOf_valid) (rule afterDist_nonempty [OF ne])
  show "validIdentifier
          (DecoratorDownlevelCompilerHost_pathToGoogModuleName pm context importPath)"
    unfolding DecoratorDownlevelCompilerHost_pathToGoogModuleName_def Let_def
    by (rule moduleNameOf_valid) (rule afterDist_nonempty [OF ne])
next
  assume "replaceSuffix ''.js'' [] importPath = []"
  then have e: "resolveImport pm context importPath = []"
    by (rule resolveImport_empty)
  show "TsickleHost_pathToGoogModuleName pm context importPath = []"
    unfolding TsickleHost_pathToGoogModuleName_def Let_def e
    by (simp add: replaceDist_Nil moduleNameOf_Nil del: replaceDist.simps)
  show "DecoratorDownlevelCompilerHost_pathToGoogModuleName pm context importPath = []"
    unfolding DecoratorDownlevelCompilerHost_pathToGoogModuleName_def Let_def e
    by (simp add: replaceDist_Nil moduleNameOf_Nil del: replaceDist.simps)
qed

theorem pathToGoogModuleName_identifier_witness:
  "(\<forall>a b. path_join (posix ''/'') a b \<noteq> [])
   \<and> replaceSuffix ''.js'' [] ''../lib/index.js'' \<noteq> []
   \<and> validIdentifier (TsickleHost_pathToGoogModuleName (posix ''/'') ''src/app/main'' ''../lib/index.js'')
   \<and> validIdentifier
       (DecoratorDownlevelCompilerHost_pathToGoogModuleName (posix ''/'') ''src/app/main''
          ''../lib/index.js'')
   \<and> replaceSuffix ''.js'' [] ''.js'' = []
   \<and> TsickleHost_pathToGoogModuleName (posix ''/'') ''src/app/main'' ''.js'' = []"
proof -
  have j: "\<forall>a b. path_join (posix ''/'') a b \<noteq> []"
    by (simp add: posix_join_nonempty)
  have n: "replaceSuffix ''.js'' [] ''../lib/index.js'' \<noteq> []"
    by (simp add: replaceSuffix_def endsWith_def)
  have e: "replaceSuffix ''.js'' [] ''.js'' = []"
    by (simp add: replaceSuffix_def endsWith_def)
  show ?thesis
    using j n e
      pathToGoogModuleName_identifier [OF j, of "''../lib/index.js''" "''src/app/main''"]
      pathToGoogModuleName_identifier [OF j, of "''.js''" "''src/app/main''"]
    by blast
qed

text \<open>
  C2. What the two hosts return at the inputs of the claim. The claim, the test of the
  repository and the comment above the function (\<^verbatim>\<open>replaces '/' with '$'\<close>) expect
  \<^verbatim>\<open>_angular$core$place$testing\<close> and \<^verbatim>\<open>other__file\<close>; the function replaces a slash by a
  dot and keeps an underscore.
\<close>

theorem pathToGoogModuleName_examples:
  "TsickleHost_pathToGoogModuleName (posix ''/'') ''some-file''
      ''dist/packages-dist/core/esm/place/testing'' = ''_angular.core.place.testing''
   \<and> DecoratorDownlevelCompilerHost_pathToGoogModuleName (posix ''/'') ''some-file''
      ''dist/packages-dist/core/esm/place/testing'' = ''dist.packages_dist.core.esm.place.testing''
   \<and> TsickleHost_pathToGoogModuleName (posix ''/'') ''some-file'' ''./other_file'' = ''other_file''
   \<and> DecoratorDownlevelCompilerHost_pathToGoogModuleName (posix ''/'') ''some-file''
      ''./other_file'' = ''other_file''"
  by code_simp

text \<open>
  C10. For an import specifier that does not start with a dot, the result of either host
  does not depend on the context path, whatever the path module.
\<close>

theorem pathToGoogModuleName_context_independent:
  assumes "\<not> startsWith ''.'' importPath"
  shows "TsickleHost_pathToGoogModuleName pm c1 importPath
           = TsickleHost_pathToGoogModuleName pm c2 importPath
       \<and> DecoratorDownlevelCompilerHost_pathToGoogModuleName pm c1 importPath
           = DecoratorDownlevelCompilerHost_pathToGoogModuleName pm c2 importPath"
proof -
  have "resolveImport pm c1 importPath = resolveImport pm c2 importPath"
    using isRelative_strip [OF assms] by (simp add: resolveImport_def Let_def)
  then show ?thesis
    by (simp add: TsickleHost_pathToGoogModuleName_def
        DecoratorDownlevelCompilerHost_pathToGoogModuleName_def)
qed

theorem pathToGoogModuleName_context_independent_witness:
  "\<not> startsWith ''.'' ''rxjs/Subject.js''
   \<and> TsickleHost_pathToGoogModuleName (posix ''/'') ''a/b/c'' ''rxjs/Subject.js''
       = TsickleHost_pathToGoogModuleName (posix ''/'') ''../d'' ''rxjs/Subject.js''
   \<and> DecoratorDownlevelCompilerHost_pathToGoogModuleName (posix ''/'') ''a/b/c'' ''rxjs/Subject.js''
       = DecoratorDownlevelCompilerHost_pathToGoogModuleName (posix ''/'') ''../d'' ''rxjs/Subject.js''"
proof -
  have h: "\<not> startsWith ''.'' ''rxjs/Subject.js''"
    by (simp add: startsWith_def)
  show ?thesis
    using h pathToGoogModuleName_context_independent
              [OF h, of "posix ''/''" "''a/b/c''" "''../d''"]
    by blast
qed

section \<open>Properties of the compiler hosts\<close>


lemma endsWith_iff: "endsWith p s \<longleftrightarrow> (\<exists>pre. s = pre @ p)"
proof
  assume "endsWith p s"
  then have "s = take (length s - length p) s @ p"
    by (metis append_take_drop_id endsWith_def)
  then show "\<exists>pre. s = pre @ p" ..
next
  assume "\<exists>pre. s = pre @ p"
  then show "endsWith p s" by (auto simp: endsWith_def)
qed

lemma js_not_dts: "endsWith ''.js'' fileName \<Longrightarrow> \<not> endsWith ''.d.ts'' fileName"
  by (auto simp: endsWith_iff)

lemma writeMetadata_events:
  "ev \<in> set (fst (writeMetadata env emitFilePath sf)) \<Longrightarrow>
     (\<exists>c f b. ev = GetMetadata c f b) \<or> (\<exists>p t. ev = WriteFileSync p t)"
  by (auto simp: writeMetadata_def andThen_def callFor_def call_def returns_def throws_def Let_def
      split: option.splits sum.splits prod.splits if_splits)

text \<open>
  C9. A \<^verbatim>\<open>writeFile\<close> call whose file name ends in \<^verbatim>\<open>.d.ts\<close> forwards the write, with all
  its arguments as given, to the inner host and ends there: the forwarded write is the
  only call made, so no metadata is collected and no sidecar written; the call returns
  unless the inner host throws.
\<close>

theorem writeFile_declaration:
  assumes "endsWith ''.d.ts'' fileName"
  shows "MetadataWriterHost_writeFile env fileName data writeByteOrderMark onError sourceFiles
         = ([DelegateWriteFile fileName data writeByteOrderMark onError sourceFiles],
            (case delegate_writeFile env fileName data writeByteOrderMark onError sourceFiles of
               Some e \<Rightarrow> Inl e | None \<Rightarrow> Inr ()))"
  using assms by (simp add: MetadataWriterHost_writeFile_def call_def)

text \<open>
  C4. On a file that is neither a declaration file nor an excluded file, a \<^verbatim>\<open>writeFile\<close>
  call whose list of source units is absent or holds more than one unit throws an error
  at once: no call of a collaborator precedes it, so no sidecar is written.
\<close>

theorem writeFile_source_units:
  assumes "\<not> endsWith ''.d.ts'' fileName" and "\<not> IGNORED_FILES fileName"
    and "sourceFiles = None \<or> (\<exists>sfs. sourceFiles = Some sfs \<and> 1 < length sfs)"
  shows "MetadataWriterHost_writeFile env fileName data writeByteOrderMark onError sourceFiles
         = ([], Inl (if sourceFiles = None then MetadataEmitRequiresSourceFiles
                     else BundledEmitNotSupported))"
  using assms by (auto simp: MetadataWriterHost_writeFile_def throws_def)

text \<open>
  C3, amended. For a \<^verbatim>\<open>writeFile\<close> call on a file name ending in \<^verbatim>\<open>.js\<close>, nothing is
  forwarded to the inner host. If the name matches the excluded pattern
  (\<^verbatim>\<open>.ngfactory.js\<close>, \<^verbatim>\<open>.ngstyle.js\<close>) the call returns without any effect. Otherwise,
  with exactly one source unit, the metadata of the unit's original tree is collected
  by both collectors and, when at least one of the two documents is defined, the list of
  the defined ones is serialized and written to the file name with \<^verbatim>\<open>.js\<close> replaced by
  \<^verbatim>\<open>.metadata.json\<close>.
\<close>

theorem writeFile_compiled_output:
  assumes "endsWith ''.js'' fileName"
  shows "(\<forall>f d b cb sfs. DelegateWriteFile f d b cb sfs
            \<notin> set (fst (MetadataWriterHost_writeFile env fileName data writeByteOrderMark onError
                          sourceFiles)))
       \<and> (IGNORED_FILES fileName \<longrightarrow>
            MetadataWriterHost_writeFile env fileName data writeByteOrderMark onError sourceFiles
              = ([], Inr ()))
       \<and> (\<not> IGNORED_FILES fileName \<and> sourceFiles = Some [sf]
            \<and> getMetadata env QuotedNames (originalOf sf) (strictMetadataEmit env) = Inr m
            \<and> getMetadata env Version1 (originalOf sf) False = Inr m1 \<longrightarrow>
            MetadataWriterHost_writeFile env fileName data writeByteOrderMark onError sourceFiles
              = ([GetMetadata QuotedNames (originalOf sf) (strictMetadataEmit env),
                  GetMetadata Version1 (originalOf sf) False]
                 @ (if m = None \<and> m1 = None then []
                    else [WriteFileSync (replaceSuffix ''.js'' ''.metadata.json'' fileName)
                            (stringify env (List.map_filter id [m, m1]))]),
                 (if m = None \<and> m1 = None then Inr ()
                  else (case writeFileSync env (replaceSuffix ''.js'' ''.metadata.json'' fileName)
                               (stringify env (List.map_filter id [m, m1])) of
                          Some e \<Rightarrow> Inl e | None \<Rightarrow> Inr ()))))"
proof (intro conjI allI impI)
  note nd = js_not_dts [OF assms]
  fix f d b cb sfs
  show "DelegateWriteFile f d b cb sfs
          \<notin> set (fst (MetadataWriterHost_writeFile env fileName data writeByteOrderMark onError
                        sourceFiles))"
    using nd writeMetadata_events [of "DelegateWriteFile f d b cb sfs" env fileName]
    by (auto simp: MetadataWriterHost_writeFile_def returns_def throws_def
        split: option.splits if_splits)
next
  assume "IGNORED_FILES fileName"
  with js_not_dts [OF assms]
  show "MetadataWriterHost_writeFile env fileName data writeByteOrderMark onError sourceFiles
          = ([], Inr ())"
    by (simp add: MetadataWriterHost_writeFile_def returns_def)
next
  assume a: "\<not> IGNORED_FILES fileName \<and> sourceFiles = Some [sf]
            \<and> getMetadata env QuotedNames (originalOf sf) (strictMetadataEmit env) = Inr m
            \<and> getMetadata env Version1 (originalOf sf) False = Inr m1"
  have mf: "(List.map_filter id [m, m1] = []) = (m = None \<and> m1 = None)"
    by (cases m; cases m1) (simp_all add: List.map_filter_simps)
  show "MetadataWriterHost_writeFile env fileName data writeByteOrderMark onError sourceFiles
              = ([GetMetadata QuotedNames (originalOf sf) (strictMetadataEmit env),
                  GetMetadata Version1 (originalOf sf) False]
                 @ (if m = None \<and> m1 = None then []
                    else [WriteFileSync (replaceSuffix ''.js'' ''.metadata.json'' fileName)
                            (stringify env (List.map_filter id [m, m1]))]),
                 (if m = None \<and> m1 = None then Inr ()
                  else (case writeFileSync env (replaceSuffix ''.js'' ''.metadata.json'' fileName)
                               (stringify env (List.map_filter id [m, m1])) of
                          Some e \<Rightarrow> Inl e | None \<Rightarrow> Inr ())))"
    using a js_not_dts [OF assms] assms mf
    by (simp add: MetadataWriterHost_writeFile_def writeMetadata_def andThen_def callFor_def
        call_def returns_def Let_def)
qed

text \<open>
  C8. In \<^verbatim>\<open>DecoratorDownlevelCompilerHost.getSourceFile\<close>, when \<^verbatim>\<open>convertDecorators\<close>
  throws on a file that is not a declaration file, the same exception leaves
  \<^verbatim>\<open>getSourceFile\<close>; for a file name ending in \<^verbatim>\<open>.d.ts\<close> the result is the parse of the
  text read from the inner host, as it is: no conversion is attempted, no preamble
  appended, and the diagnostics of the host are unchanged.
\<close>

theorem getSourceFile_failure_policy:
  "(\<not> endsWith ''.d.ts'' fileName
      \<and> convertDecorators env (program_getSourceFile env fileName) = Inl e \<longrightarrow>
      snd (snd (DecoratorDownlevelCompilerHost_getSourceFile env diagnostics fileName
                  languageVersion)) = Inl e)
   \<and> (endsWith ''.d.ts'' fileName \<longrightarrow>
        DecoratorDownlevelCompilerHost_getSourceFile env diagnostics fileName languageVersion
          = (diagnostics, [],
             Inr (createSourceFile fileName (delegate_readFile env fileName) languageVersion
                    True)))"
  by (simp add: DecoratorDownlevelCompilerHost_getSourceFile_def Let_def)


theorem writeFile_declaration_witness:
  "endsWith ''.d.ts'' ''app.d.ts''
   \<and> MetadataWriterHost_writeFile exampleWriterEnv ''app.d.ts'' ''declare var x;'' False
         (Some (Callback 0)) (Some [exampleSourceFile])
       = ([DelegateWriteFile ''app.d.ts'' ''declare var x;'' False (Some (Callback 0))
             (Some [exampleSourceFile])], Inr ())"
proof -
  have h: "endsWith ''.d.ts'' ''app.d.ts''"
    by (simp add: endsWith_def)
  show ?thesis
    using h writeFile_declaration [OF h, of exampleWriterEnv "''declare var x;''" False
        "Some (Callback 0)" "Some [exampleSourceFile]"]
    by (simp add: exampleWriterEnv_def)
qed

theorem writeFile_source_units_witness:
  "\<not> endsWith ''.d.ts'' ''app.js'' \<and> \<not> IGNORED_FILES ''app.js''
   \<and> MetadataWriterHost_writeFile exampleWriterEnv ''app.js'' ''var x;'' False None None
       = ([], Inl MetadataEmitRequiresSourceFiles)
   \<and> MetadataWriterHost_writeFile exampleWriterEnv ''app.js'' ''var x;'' False None
         (Some [exampleSourceFile, exampleSourceFile])
       = ([], Inl BundledEmitNotSupported)"
proof -
  have h1: "\<not> endsWith ''.d.ts'' ''app.js''" and h2: "\<not> IGNORED_FILES ''app.js''"
    by (simp_all add: endsWith_def IGNORED_FILES_def)
  have h3: "(None :: sourceFile list option) = None \<or> (\<exists>sfs. None = Some sfs \<and> 1 < length sfs)"
    by simp
  have h4: "Some [exampleSourceFile, exampleSourceFile] = None
            \<or> (\<exists>sfs. Some [exampleSourceFile, exampleSourceFile] = Some sfs \<and> 1 < length sfs)"
    by simp
  show ?thesis
    using h1 h2
      writeFile_source_units [OF h1 h2 h3, of exampleWriterEnv "''var x;''" False None]
      writeFile_source_units [OF h1 h2 h4, of exampleWriterEnv "''var x;''" False None]
    by simp
qed

text \<open>
  C3, as the claim states it, fails: the write of \<^verbatim>\<open>app.js\<close> is never forwarded to the
  inner host. Only the branch for declaration files calls \<^verbatim>\<open>this.delegate.writeFile\<close>.
\<close>

theorem writeFile_not_forwarded_counterexample:
  "MetadataWriterHost_writeFile exampleWriterEnv ''app.js'' ''var x;'' False None
       (Some [exampleSourceFile])
     = ([GetMetadata QuotedNames (SourceFile ''app.ts'' ''let x = 1;'' 1 True None) False,
         GetMetadata Version1 (SourceFile ''app.ts'' ''let x = 1;'' 1 True None) False,
         WriteFileSync ''app.metadata.json'' ''[{v3}]''], Inr ())
   \<and> DelegateWriteFile ''app.js'' ''var x;'' False None (Some [exampleSourceFile])
       \<notin> set (fst (MetadataWriterHost_writeFile exampleWriterEnv ''app.js'' ''var x;'' False None
                     (Some [exampleSourceFile])))"
  by code_simp

theorem writeFile_compiled_output_witness:
  "endsWith ''.js'' ''app.js'' \<and> \<not> IGNORED_FILES ''app.js''
   \<and> MetadataWriterHost_writeFile exampleWriterEnv ''app.js'' ''var x;'' False None
         (Some [exampleSourceFile])
       = ([GetMetadata QuotedNames (SourceFile ''app.ts'' ''let x = 1;'' 1 True None) False,
           GetMetadata Version1 (SourceFile ''app.ts'' ''let x = 1;'' 1 True None) False,
           WriteFileSync ''app.metadata.json'' ''[{v3}]''], Inr ())
   \<and> endsWith ''.js'' ''app.ngfactory.js'' \<and> IGNORED_FILES ''app.ngfactory.js''
   \<and> MetadataWriterHost_writeFile exampleWriterEnv ''app.ngfactory.js'' ''var x;'' False None
         (Some [exampleSourceFile]) = ([], Inr ())"
proof -
  have h1: "endsWith ''.js'' ''app.js''" and h2: "\<not> IGNORED_FILES ''app.js''"
    and h3: "endsWith ''.js'' ''app.ngfactory.js''" and h4: "IGNORED_FILES ''app.ngfactory.js''"
    by (simp_all add: endsWith_def IGNORED_FILES_def)
  have o: "originalOf exampleSourceFile = SourceFile ''app.ts'' ''let x = 1;'' 1 True None"
    by (simp add: exampleSourceFile_def)
  have g: "getMetadata exampleWriterEnv QuotedNames (originalOf exampleSourceFile)
             (strictMetadataEmit exampleWriterEnv) = Inr (Some ''{v3}'')"
    "getMetadata exampleWriterEnv Version1 (originalOf exampleSourceFile) False = Inr None"
    by (simp_all add: exampleWriterEnv_def)
  have r: "replaceSuffix ''.js'' ''.metadata.json'' ''app.js'' = ''app.metadata.json''"
    by (simp add: replaceSuffix_def endsWith_def)
  show ?thesis
    using h1 h2 h3 h4 g
      writeFile_compiled_output [OF h1, of exampleWriterEnv "''var x;''" False None
        "Some [exampleSourceFile]" exampleSourceFile "Some ''{v3}''" None]
      writeFile_compiled_output [OF h3, of exampleWriterEnv "''var x;''" False None
        "Some [exampleSourceFile]" exampleSourceFile "Some ''{v3}''" None]
    by (simp add: o r List.map_filter_simps) (simp add: exampleWriterEnv_def)
qed

theorem getSourceFile_failure_policy_witness:
  "\<not> endsWith ''.d.ts'' ''app.ts''
   \<and> convertDecorators exampleDownlevelEnv (program_getSourceFile exampleDownlevelEnv ''app.ts'')
       = Inl (Thrown ''no source file'')
   \<and> snd (snd (DecoratorDownlevelCompilerHost_getSourceFile exampleDownlevelEnv [] ''app.ts'' 1))
       = Inl (Thrown ''no source file'')
   \<and> endsWith ''.d.ts'' ''lib.d.ts''
   \<and> DecoratorDownlevelCompilerHost_getSourceFile exampleDownlevelEnv [] ''lib.d.ts'' 1
       = ([], [], Inr (SourceFile ''lib.d.ts'' ''declare var x: number;'' 1 True None))"
proof -
  have h1: "\<not> endsWith ''.d.ts'' ''app.ts''" and h2: "endsWith ''.d.ts'' ''lib.d.ts''"
    by (simp_all add: endsWith_def)
  have h3: "convertDecorators exampleDownlevelEnv
              (program_getSourceFile exampleDownlevelEnv ''app.ts'')
            = Inl (Thrown ''no source file'')"
    by (simp add: exampleDownlevelEnv_def)
  show ?thesis
    using h1 h2 h3
      getSourceFile_failure_policy [of "''app.ts''" exampleDownlevelEnv
        "Thrown ''no source file''" "[]" 1]
      getSourceFile_failure_policy [of "''lib.d.ts''" exampleDownlevelEnv
        "Thrown ''no source file''" "[]" 1]
    by (simp add: createSourceFile_def exampleDownlevelEnv_def)
qed


section \<open>Properties of the code generator\<close>

text \<open>
  C7. The code at a generated file below a directory whose name starts with a dot. The
  file lies under the configured root \<^verbatim>\<open>/proj/src\<close>: its path relative to that root,
  \<^verbatim>\<open>.tmp/app.ngfactory.ts\<close>, has no parent-directory segment. The claim places the output
  at \<^verbatim>\<open>/proj/gen/.tmp/app.ngfactory.ts\<close>. The test \<^verbatim>\<open>indexOf('.') !== 0\<close> takes the leading
  dot for an escape, the root falls back to \<^verbatim>\<open>basePath\<close> and the output goes to
  \<^verbatim>\<open>/proj/gen/src/.tmp/app.ngfactory.ts\<close>, while the file next to it in \<^verbatim>\<open>tmp\<close> goes to
  \<^verbatim>\<open>/proj/gen/tmp/app.ngfactory.ts\<close>.
\<close>

theorem calculateEmitPath_dot_directory: "path_relative (posix ''/'') ''/proj/src'' ''/proj/src/.tmp/app.ngfactory.ts''
     = ''.tmp/app.ngfactory.ts''
   \<and> snd (calculateEmitPath (posix ''/'')
             \<lparr> basePath = ''/proj'', rootDirs = Some [''/proj/src''], genDir = ''/proj/gen'',
               trace = False \<rparr> ''/proj/src/.tmp/app.ngfactory.ts'')
     = ''/proj/gen/src/.tmp/app.ngfactory.ts''
   \<and> snd (calculateEmitPath (posix ''/'')
             \<lparr> basePath = ''/proj'', rootDirs = Some [''/proj/src''], genDir = ''/proj/gen'',
               trace = False \<rparr> ''/proj/src/tmp/app.ngfactory.ts'')
     = ''/proj/gen/tmp/app.ngfactory.ts''"
  by code_simp

subsection \<open>The callbacks of the files\<close>


lemma writeGenerated_eq:
  "writeGenerated env fm gm =
     (fst (calculateEmitPath (cg_path env) (cg_options env) (gm_moduleUrl gm))
        @ [HostWriteFile (emitPathOf env gm) (PREAMBLE @ fixSource (gm_source gm)) False
             [cg_getSourceFile env (fm_fileUrl fm)]],
      (case cg_host_writeFile env (emitPathOf env gm) (PREAMBLE @ fixSource (gm_source gm)) False
              [cg_getSourceFile env (fm_fileUrl fm)] of
         Some e \<Rightarrow> Inl e | None \<Rightarrow> Inr ()))"
  by (simp add: writeGenerated_def emitPathOf_def andThen_def call_def Let_def split: prod.splits)











text \<open>
  The files that have a promise are the files before the first one for which the call of
  \<^verbatim>\<open>compile\<close> throws: all files when no call throws.
\<close>

lemma startTasks_started:
  "startTasks env analyzedNgModules fileMetas = (started, thrown)
   \<Longrightarrow> map fst started = take (length started) fileMetas
       \<and> (case thrown of
             None \<Rightarrow> length started = length fileMetas
           | Some e \<Rightarrow> length started < length fileMetas
                       \<and> cg_compile env (fm_fileUrl (fileMetas ! length started)) analyzedNgModules
                            (fm_components (fileMetas ! length started))
                            (fm_ngModules (fileMetas ! length started)) = Inl e)"
proof (induction fileMetas arbitrary: started thrown)
  case Nil
  then show ?case by simp
next
  case (Cons fileMeta fileMetas)
  show ?case
  proof (cases "cg_compile env (fm_fileUrl fileMeta) analyzedNgModules (fm_components fileMeta)
                  (fm_ngModules fileMeta)")
    case (Inl e)
    with Cons.prems have "started = []" and "thrown = Some e" by auto
    with Inl show ?thesis by simp
  next
    case (Inr promise)
    obtain started' thrown' where r: "startTasks env analyzedNgModules fileMetas = (started', thrown')"
      by (cases "startTasks env analyzedNgModules fileMetas")
    from Cons.prems Inr r have s: "started = (fileMeta, promise) # started'" and t: "thrown = thrown'"
      by simp_all
    from Cons.IH [OF r] show ?thesis
      unfolding s t by (simp split: option.splits)
  qed
qed

subsection \<open>The job queue with the aggregate promise\<close>

text \<open>
  Every step preserves the description of the state given above: a promise that settles,
  and each of the jobs.
\<close>

lemma tasksQueued_append [simp]: "tasksQueued (a @ b) = tasksQueued a @ tasksQueued b"
  by (induction a rule: tasksQueued.induct) auto

lemma allsQueued_append [simp]: "allsQueued (a @ b) = allsQueued a @ allsQueued b"
  by (induction a rule: allsQueued.induct) auto

lemma catchesQueued_append [simp]: "catchesQueued (a @ b) = catchesQueued a + catchesQueued b"
  by (induction a rule: catchesQueued.induct) auto



































subsection \<open>The job queue after an exception of the generator\<close>







subsection \<open>The failure policy\<close>





section \<open>Properties of the textual patch\<close>

lemma startsWith_append: "startsWith (p @ q) s \<Longrightarrow> startsWith p s"
proof -
  assume h: "startsWith (p @ q) s"
  have "take (length p) s = take (length p) (take (length (p @ q)) s)"
    by (simp add: min_def)
  also have "\<dots> = take (length p) (p @ q)"
    using h by (simp add: startsWith_def)
  finally show ?thesis by (simp add: startsWith_def)
qed

lemma startsWith_iff: "startsWith p s \<longleftrightarrow> (\<exists>rest. s = p @ rest)"
proof
  assume "startsWith p s"
  then have "s = p @ drop (length p) s"
    by (metis append_take_drop_id startsWith_def)
  then show "\<exists>rest. s = p @ rest" ..
next
  assume "\<exists>rest. s = p @ rest"
  then show "startsWith p s" by (auto simp: startsWith_def)
qed

lemma startsWith_same [simp]: "startsWith p (p @ rest)"
  by (simp add: startsWith_def)

text \<open>A prefix that reaches a character it does not contain ends before it.\<close>

lemma startsWith_before:
  assumes "startsWith q (t @ c # rest)" and "c \<notin> set q"
  shows "startsWith q t"
proof (cases "length q \<le> length t")
  case True
  with assms(1) show ?thesis by (simp add: startsWith_def)
next
  case False
  then have "take (length q) (t @ c # rest) = t @ c # take (length q - Suc (length t)) rest"
    by (simp add: take_Cons' not_le)
  with assms(1) have "q = t @ c # take (length q - Suc (length t)) rest"
    by (simp add: startsWith_def)
  then have "c \<in> set q" by (metis in_set_conv_decomp)
  with assms(2) show ?thesis by simp
qed


lemma matchErrorAt_shape:
  assumes "matchErrorAt lit t = Some m"
  shows "\<exists>x rest. m = lit @ x @ ''.transform'' \<and> x \<noteq> [] \<and> CHR ''.'' \<notin> set x \<and> t = m @ rest"
proof -
  let ?t = "drop (length lit) t"
  let ?x = "takeWhile (\<lambda>c. c \<noteq> CHR ''.'') ?t"
  let ?u = "dropWhile (\<lambda>c. c \<noteq> CHR ''.'') ?t"
  from assms have sw: "startsWith lit t" and x: "?x \<noteq> []" and u: "startsWith ''.transform'' ?u"
    and m: "m = lit @ ?x @ ''.transform''"
    by (auto simp: matchErrorAt_def Let_def split: if_splits)
  from sw have t: "t = lit @ ?t"
    by (metis append_take_drop_id startsWith_def)
  from u obtain rest where r: "?u = ''.transform'' @ rest"
    unfolding startsWith_iff by blast
  have "?t = ?x @ ?u" by simp
  with t r have "t = lit @ ?x @ ''.transform'' @ rest" by metis
  moreover have "CHR ''.'' \<notin> set ?x"
    by (auto dest: set_takeWhileD)
  ultimately show ?thesis using m x by auto
qed

lemma takeWhile_until:
  assumes "\<forall>c\<in>set x. P c" and "\<not> P d"
  shows "takeWhile P (x @ d # rest) = x" and "dropWhile P (x @ d # rest) = d # rest"
  using assms by (induction x) auto

lemma matchErrorAt_intro:
  assumes "x \<noteq> []" and "CHR ''.'' \<notin> set x"
  shows "matchErrorAt lit (lit @ x @ ''.transform'' @ rest) = Some (lit @ x @ ''.transform'')"
proof -
  have "\<forall>c\<in>set x. c \<noteq> CHR ''.''" using assms(2) by auto
  then have "takeWhile (\<lambda>c. c \<noteq> CHR ''.'') (x @ CHR ''.'' # ''transform'' @ rest) = x"
    and "dropWhile (\<lambda>c. c \<noteq> CHR ''.'') (x @ CHR ''.'' # ''transform'' @ rest)
           = CHR ''.'' # ''transform'' @ rest"
    by (simp_all add: takeWhile_until)
  with assms(1) show ?thesis
    by (simp add: matchErrorAt_def Let_def startsWith_def)
qed

lemma findFirst_at:
  assumes "m \<noteq> []" and "\<forall>p<length D. \<not> startsWith m (drop p (D @ m @ R))"
  shows "findFirst m (D @ m @ R) = Some (D, R)"
  using assms(2)
proof (induction D)
  case Nil
  from assms(1) obtain c cs where "m @ R = c # cs" by (cases m) auto
  then show ?case
    by (metis append_Nil append_eq_conv_conj findFirst.simps(2) startsWith_same)
next
  case (Cons d D)
  from Cons.prems have "\<not> startsWith m ((d # D) @ m @ R)" by force
  moreover have "\<forall>p<length D. \<not> startsWith m (drop p (D @ m @ R))"
    using Cons.prems by force
  ultimately show ?case using Cons.IH by simp
qed

lemma getSubstitution_plain: "CHR ''$'' \<notin> set r \<Longrightarrow> getSubstitution a b c r = r"
  by (induction a b c r rule: getSubstitution.induct) auto


lemma noStartIn_iff:
  "noStartIn lit A R \<longleftrightarrow> (\<forall>k<length A. \<not> startsWith lit (drop k (A @ R)))"
proof (induction A)
  case Nil
  then show ?case by simp
next
  case (Cons c A)
  have "(\<forall>k<length (c # A). \<not> startsWith lit (drop k ((c # A) @ R)))
        \<longleftrightarrow> (\<not> startsWith lit (c # A @ R) \<and> (\<forall>k<length A. \<not> startsWith lit (drop k (A @ R))))"
    (is "?L \<longleftrightarrow> ?R")
  proof
    assume l: ?L
    then have "\<not> startsWith lit (drop 0 ((c # A) @ R))" by blast
    moreover have "\<not> startsWith lit (drop k (A @ R))" if "k < length A" for k
      using l [rule_format, of "Suc k"] that by simp
    ultimately show ?R by simp
  next
    assume r: ?R
    show ?L
    proof (intro allI impI)
      fix k assume "k < length (c # A)"
      with r show "\<not> startsWith lit (drop k ((c # A) @ R))"
        by (cases k) auto
    qed
  qed
  with Cons show ?case by simp
qed

lemma noStartIn_append:
  "noStartIn lit (A @ B) R \<longleftrightarrow> noStartIn lit A (B @ R) \<and> noStartIn lit B R"
  by (induction A) auto

lemma lit_start:
  assumes "startsWith ''this.parent.'' t"
  shows "takeWhile (\<lambda>c. c \<noteq> CHR ''.'') t = ''this''"
    and "startsWith ''.parent.'' (dropWhile (\<lambda>c. c \<noteq> CHR ''.'') t)"
proof -
  from assms obtain rest where "t = ''this.parent.'' @ rest"
    unfolding startsWith_iff by blast
  then show "takeWhile (\<lambda>c. c \<noteq> CHR ''.'') t = ''this''"
    and "startsWith ''.parent.'' (dropWhile (\<lambda>c. c \<noteq> CHR ''.'') t)"
    by (simp_all add: startsWith_def)
qed

lemma noStartIn_dotfree:
  assumes "CHR ''.'' \<notin> set A"
    and "\<And>a. a \<noteq> [] \<Longrightarrow> CHR ''.'' \<notin> set a \<Longrightarrow> \<not> startsWith lit (a @ B)"
  shows "noStartIn lit A B"
  using assms(1)
proof (induction A)
  case Nil
  then show ?case by simp
next
  case (Cons c A)
  then have "\<not> startsWith lit ((c # A) @ B)"
    by (intro assms(2)) auto
  with Cons show ?case by simp
qed

lemma no_start_before_cast_end:
  assumes "a \<noteq> []" and "CHR ''.'' \<notin> set a"
  shows "\<not> startsWith ''this.parent.'' (a @ ''>this.parent).'' @ R)"
proof
  assume "startsWith ''this.parent.'' (a @ ''>this.parent).'' @ R)"
  from lit_start(1) [OF this]
  have "takeWhile (\<lambda>c. c \<noteq> CHR ''.'') ((a @ ''>this'') @ CHR ''.'' # ''parent).'' @ R) = ''this''"
    by simp
  moreover have "takeWhile (\<lambda>c. c \<noteq> CHR ''.'') ((a @ ''>this'') @ CHR ''.'' # ''parent).'' @ R)
                 = a @ ''>this''"
    using assms(2) by (intro takeWhile_until) auto
  ultimately have "a @ ''>this'' = ''this''" by simp
  then have "length (a @ ''>this'') = length ''this''" by (rule arg_cong)
  then show False by simp
qed

lemma no_start_before_transform:
  assumes "a \<noteq> []" and "CHR ''.'' \<notin> set a"
  shows "\<not> startsWith ''this.parent.'' (a @ ''.transform'' @ R)"
proof
  assume "startsWith ''this.parent.'' (a @ ''.transform'' @ R)"
  from lit_start(2) [OF this]
  have "startsWith ''.parent.'' (dropWhile (\<lambda>c. c \<noteq> CHR ''.'') (a @ CHR ''.'' # ''transform'' @ R))"
    by simp
  moreover have "dropWhile (\<lambda>c. c \<noteq> CHR ''.'') (a @ CHR ''.'' # ''transform'' @ R)
                 = CHR ''.'' # ''transform'' @ R"
    using assms(2) by (intro takeWhile_until) auto
  ultimately show False by (simp add: startsWith_def)
qed

lemma noStartIn_replacement:
  assumes "CHR ''.'' \<notin> set T" and "CHR ''.'' \<notin> set x"
  shows "noStartIn ''this.parent.'' (''(<'' @ T @ ''>this.parent).'' @ x @ ''.transform'') R"
proof -
  have 1: "noStartIn ''this.parent.'' ''(<'' R'" for R'
    by (simp add: startsWith_def)
  have 2: "noStartIn ''this.parent.'' T (''>this.parent).'' @ R')" for R'
    using assms(1) by (rule noStartIn_dotfree) (rule no_start_before_cast_end)
  have 3: "noStartIn ''this.parent.'' ''>this.parent).'' R'" for R'
    by (simp add: startsWith_def)
  have 4: "noStartIn ''this.parent.'' x (''.transform'' @ R')" for R'
    using assms(2) by (rule noStartIn_dotfree) (rule no_start_before_transform)
  have 5: "noStartIn ''this.parent.'' ''.transform'' R'" for R'
    by (simp add: startsWith_def)
  show ?thesis
    unfolding noStartIn_append using 1 2 3 4 5 by simp
qed


lemma startsWith_extend: "startsWith p d \<Longrightarrow> startsWith p (d @ Y)"
  unfolding startsWith_iff by auto

lemma matchErrorAt_lit:
  "matchErrorAt lit (lit @ r) =
     (if takeWhile (\<lambda>c. c \<noteq> CHR ''.'') r \<noteq> []
         \<and> startsWith ''.transform'' (dropWhile (\<lambda>c. c \<noteq> CHR ''.'') r)
      then Some (lit @ takeWhile (\<lambda>c. c \<noteq> CHR ''.'') r @ ''.transform'') else None)"
  by (simp add: matchErrorAt_def Let_def)

lemma matchErrorAt_no_start: "\<not> startsWith lit t \<Longrightarrow> matchErrorAt lit t = None"
  by (simp add: matchErrorAt_def)

lemma no_new_match:
  assumes old: "matchErrorAt ''this.parent.'' (t @ m @ R) = None"
    and T: "CHR ''.'' \<notin> set T"
  shows "matchErrorAt ''this.parent.''
           (t @ (''(<'' @ T @ ''>this.parent).'' @ x @ ''.transform'') @ R) = None"
proof (cases "startsWith ''this.parent.''
                (t @ (''(<'' @ T @ ''>this.parent).'' @ x @ ''.transform'') @ R)")
  case False
  then show ?thesis by (rule matchErrorAt_no_start)
next
  case True
  let ?nd = "\<lambda>c. c \<noteq> CHR ''.''"
  let ?tail = "''<'' @ T @ ''>this.parent).'' @ x @ ''.transform'' @ R"
  from True have "startsWith ''this.parent.'' (t @ CHR ''('' # ?tail)" by simp
  then have "startsWith ''this.parent.'' t"
    by (rule startsWith_before) simp
  then obtain t' where t: "t = ''this.parent.'' @ t'"
    unfolding startsWith_iff by blast
  show ?thesis
  proof (cases "CHR ''.'' \<in> set t'")
    case True
    then have tw: "takeWhile ?nd (t' @ Y) = takeWhile ?nd t'"
      and dw: "dropWhile ?nd (t' @ Y) = dropWhile ?nd t' @ Y" for Y
      by (simp_all add: takeWhile_append1 dropWhile_append1)
    have "\<not> (takeWhile ?nd t' \<noteq> []
             \<and> startsWith ''.transform'' (dropWhile ?nd t' @ CHR ''('' # ?tail))"
    proof
      assume a: "takeWhile ?nd t' \<noteq> []
             \<and> startsWith ''.transform'' (dropWhile ?nd t' @ CHR ''('' # ?tail)"
      then have "startsWith ''.transform'' (dropWhile ?nd t' @ CHR ''('' # ?tail)" ..
      then have "startsWith ''.transform'' (dropWhile ?nd t')"
        by (rule startsWith_before) simp
      then have "startsWith ''.transform'' (dropWhile ?nd t' @ m @ R)"
        by (rule startsWith_extend)
      with a have "matchErrorAt ''this.parent.'' (''this.parent.'' @ t' @ m @ R) \<noteq> None"
        unfolding matchErrorAt_lit tw dw by simp
      with old t show False by simp
    qed
    then have "matchErrorAt ''this.parent.'' (''this.parent.'' @ t' @ CHR ''('' # ?tail) = None"
      unfolding matchErrorAt_lit tw dw by simp
    with t show ?thesis by simp
  next
    case False
    let ?y = "t' @ ''(<'' @ T @ ''>this''"
    let ?rest = "''parent).'' @ x @ ''.transform'' @ R"
    have "\<forall>c\<in>set ?y. c \<noteq> CHR ''.''"
      using False T by auto
    then have "dropWhile ?nd (?y @ CHR ''.'' # ?rest) = CHR ''.'' # ?rest"
      by (intro takeWhile_until) auto
    then have "\<not> startsWith ''.transform'' (dropWhile ?nd (?y @ CHR ''.'' # ?rest))"
      by (simp add: startsWith_def)
    then have "matchErrorAt ''this.parent.'' (''this.parent.'' @ ?y @ CHR ''.'' # ?rest) = None"
      unfolding matchErrorAt_lit by simp
    with t show ?thesis by simp
  qed
qed

lemma noMatchBefore_replace:
  assumes inv: "noMatchBefore ''this.parent.'' D (m @ R)"
    and T: "CHR ''.'' \<notin> set T" and x: "CHR ''.'' \<notin> set x"
  shows "noMatchBefore ''this.parent.''
           (D @ ''(<'' @ T @ ''>this.parent).'' @ x @ ''.transform'') R"
  unfolding noMatchBefore_def
proof (intro allI impI)
  let ?N = "''(<'' @ T @ ''>this.parent).'' @ x @ ''.transform''"
  fix p assume p: "p < length (D @ ?N)"
  show "matchErrorAt ''this.parent.'' (drop p ((D @ ?N) @ R)) = None"
  proof (cases "p < length D")
    case True
    with inv have "matchErrorAt ''this.parent.'' (drop p D @ m @ R) = None"
      by (simp add: noMatchBefore_def)
    from no_new_match [OF this T, of x] True show ?thesis by simp
  next
    case False
    with p have k: "p - length D < length ?N" by auto
    have "noStartIn ''this.parent.'' ?N R"
      using T x by (rule noStartIn_replacement)
    with k have "\<not> startsWith ''this.parent.'' (drop (p - length D) (?N @ R))"
      unfolding noStartIn_iff by blast
    then have "matchErrorAt ''this.parent.'' (drop (p - length D) (?N @ R)) = None"
      by (rule matchErrorAt_no_start)
    with False show ?thesis by simp
  qed
qed

lemma noMatchBefore_step:
  assumes "noMatchBefore lit D (c # R)" and "matchErrorAt lit (c # R) = None"
  shows "noMatchBefore lit (D @ [c]) R"
  unfolding noMatchBefore_def
proof (intro allI impI)
  fix p assume "p < length (D @ [c])"
  then consider "p < length D" | "p = length D" by fastforce
  then show "matchErrorAt lit (drop p ((D @ [c]) @ R)) = None"
  proof cases
    case 1
    with assms(1) show ?thesis by (simp add: noMatchBefore_def)
  next
    case 2
    with assms(2) show ?thesis by simp
  qed
qed


lemma stringReplace_at:
  assumes inv: "noMatchBefore lit D (m @ R)"
    and m: "m = lit @ x @ ''.transform''" and x: "x \<noteq> []" "CHR ''.'' \<notin> set x"
    and r: "CHR ''$'' \<notin> set r"
  shows "stringReplace m r (D @ m @ R) = D @ r @ R"
proof -
  have "\<not> startsWith m (drop p (D @ m @ R))" if p: "p < length D" for p
  proof
    assume "startsWith m (drop p (D @ m @ R))"
    then obtain rest where "drop p (D @ m @ R) = lit @ x @ ''.transform'' @ rest"
      unfolding startsWith_iff m by auto
    then have "matchErrorAt lit (drop p (D @ m @ R)) = Some (lit @ x @ ''.transform'')"
      using matchErrorAt_intro [OF x, of lit rest] by simp
    with inv p show False by (simp add: noMatchBefore_def)
  qed
  moreover have "m \<noteq> []" using m by simp
  ultimately have "findFirst m (D @ m @ R) = Some (D, R)"
    by (intro findFirst_at) auto
  then show ?thesis
    by (simp add: stringReplace_def getSubstitution_plain [OF r])
qed

lemma fold_rewrite:
  assumes T: "CHR ''.'' \<notin> set T" "CHR ''$'' \<notin> set T"
  shows "noMatchBefore ''this.parent.'' D s
     \<Longrightarrow> \<forall>m\<in>set (matchAllError ''this.parent.'' s). CHR ''$'' \<notin> set m
     \<Longrightarrow> foldl (\<lambda>src errorMatch.
                 stringReplace errorMatch (''(<'' @ T @ ''>this.parent)'' @ drop 11 errorMatch) src)
           (D @ s) (matchAllError ''this.parent.'' s)
         = D @ rewriteEveryOccurrence T s"
proof (induction s arbitrary: D rule: length_induct)
  case (1 s)
  let ?lit = "''this.parent.''"
  let ?step = "\<lambda>src errorMatch.
                 stringReplace errorMatch (''(<'' @ T @ ''>this.parent)'' @ drop 11 errorMatch) src"
  show ?case
  proof (cases s)
    case Nil
    then show ?thesis by simp
  next
    case (Cons c cs)
    show ?thesis
    proof (cases "matchErrorAt ?lit (c # cs)")
      case None
      have inv: "noMatchBefore ?lit (D @ [c]) cs"
        using "1.prems"(1) None Cons by (intro noMatchBefore_step) simp_all
      have d: "\<forall>m\<in>set (matchAllError ?lit cs). CHR ''$'' \<notin> set m"
        using "1.prems"(2) None Cons by simp
      have "foldl ?step ((D @ [c]) @ cs) (matchAllError ?lit cs)
              = (D @ [c]) @ rewriteEveryOccurrence T cs"
      proof -
        have "length cs < length s" using Cons by simp
        with "1.IH" inv d show ?thesis by blast
      qed
      with None Cons show ?thesis by simp
    next
      case (Some m)
      from matchErrorAt_shape [OF Some] obtain x rest
        where m: "m = ?lit @ x @ ''.transform''" and x: "x \<noteq> []" "CHR ''.'' \<notin> set x"
          and s: "c # cs = m @ rest"
        by blast
      have dr: "drop (length m) (c # cs) = rest" using s by simp
      have dm: "CHR ''$'' \<notin> set m" using "1.prems"(2) Some Cons by simp
      have d11: "drop 11 m = ''.'' @ x @ ''.transform''" using m by simp
      let ?r = "''(<'' @ T @ ''>this.parent)'' @ drop 11 m"
      have r: "CHR ''$'' \<notin> set ?r"
        using T(2) dm by (auto dest: in_set_dropD)
      have inv0: "noMatchBefore ?lit D (m @ rest)"
        using "1.prems"(1) Cons s by simp
      have st: "stringReplace m ?r (D @ m @ rest) = D @ ?r @ rest"
        using inv0 m x r by (rule stringReplace_at)
      have inv: "noMatchBefore ?lit (D @ ?r) rest"
        using noMatchBefore_replace [OF inv0 T(1) x(2)] d11 by simp
      have d: "\<forall>m\<in>set (matchAllError ?lit rest). CHR ''$'' \<notin> set m"
        using "1.prems"(2) Some Cons dr by simp
      have "length s = length m + length rest"
        using s Cons by (metis length_append)
      moreover have "0 < length m" using m by simp
      ultimately have len: "length rest < length s" by linarith
      have ih: "foldl ?step ((D @ ?r) @ rest) (matchAllError ?lit rest)
                  = (D @ ?r) @ rewriteEveryOccurrence T rest"
        using "1.IH" len inv d by blast
      have ma: "matchAllError ?lit s = m # matchAllError ?lit rest"
        using Some Cons dr by simp
      have rw: "rewriteEveryOccurrence T s = ?r @ rewriteEveryOccurrence T rest"
        using Some Cons dr by simp
      have ds: "D @ s = D @ m @ rest"
        using s Cons by simp
      have "foldl ?step (D @ s) (matchAllError ?lit s)
              = foldl ?step (?step (D @ m @ rest) m) (matchAllError ?lit rest)"
        unfolding ma ds by simp
      also have "\<dots> = foldl ?step ((D @ ?r) @ rest) (matchAllError ?lit rest)"
        unfolding st by simp
      also note ih
      also have "(D @ ?r) @ rewriteEveryOccurrence T rest = D @ rewriteEveryOccurrence T s"
        unfolding rw by simp
      finally show ?thesis .
    qed
  qed
qed

lemma fixBlock_rewrites:
  assumes "execFix ''>this.parent'' source = Some T"
    and "CHR ''.'' \<notin> set T" and "CHR ''$'' \<notin> set T"
    and "\<forall>m\<in>set (matchAllError ''this.parent.'' source). CHR ''$'' \<notin> set m"
  shows "fixBlock ''this.parent.'' ''>this.parent'' 11 source = rewriteEveryOccurrence T source"
proof -
  have "noMatchBefore ''this.parent.'' [] source" by (simp add: noMatchBefore_def)
  from fold_rewrite [OF assms(2,3) this assms(4)]
  have f: "foldl (\<lambda>src errorMatch.
                 stringReplace errorMatch (''(<'' @ T @ ''>this.parent)'' @ drop 11 errorMatch) src)
             source (matchAllError ''this.parent.'' source)
           = rewriteEveryOccurrence T source"
    by simp
  show ?thesis
  proof (cases "matchAllError ''this.parent.'' source = []")
    case True
    with f have "rewriteEveryOccurrence T source = source" by simp
    with True show ?thesis by (simp add: fixBlock_def)
  next
    case False
    with f assms(1) show ?thesis by (simp add: fixBlock_def Let_def)
  qed
qed


lemma lazyUntil_shorter:
  "lazyUntil ''>this.parent.parent'' t = Some g \<Longrightarrow> \<exists>g'. lazyUntil ''>this.parent'' t = Some g'"
proof (induction t arbitrary: g)
  case Nil
  then show ?case by (simp add: startsWith_def)
next
  case (Cons c cs)
  show ?case
  proof (cases "startsWith ''>this.parent'' (c # cs)")
    case True
    then show ?thesis by simp
  next
    case False
    then have nf: "\<not> startsWith ''>this.parent.parent'' (c # cs)"
      using startsWith_append [of "''>this.parent''" "''.parent''" "c # cs"] by auto
    with Cons.prems have nl: "\<not> isLineTerminator c" by (auto split: if_splits)
    with Cons.prems nf obtain g0 where "lazyUntil ''>this.parent.parent'' cs = Some g0"
      by auto
    from Cons.IH [OF this] False nl show ?thesis by auto
  qed
qed

lemma execFix_shorter:
  "execFix ''>this.parent'' s = None \<Longrightarrow> execFix ''>this.parent.parent'' s = None"
proof (induction s)
  case Nil
  then show ?case by simp
next
  case (Cons c cs)
  show ?case
  proof (cases "c = CHR ''<''")
    case False
    with Cons show ?thesis by simp
  next
    case True
    with Cons.prems have l: "lazyUntil ''>this.parent'' cs = None" and "execFix ''>this.parent'' cs = None"
      by (auto split: option.splits)
    with Cons.IH have "execFix ''>this.parent.parent'' cs = None" by simp
    moreover have "lazyUntil ''>this.parent.parent'' cs = None"
      using l lazyUntil_shorter [of cs] by (cases "lazyUntil ''>this.parent.parent'' cs") auto
    ultimately show ?thesis using True by simp
  qed
qed

lemma fixSource_no_occurrence:
  "matchAllError ''this.parent.'' s = [] \<Longrightarrow> matchAllError ''this.parent.parent.'' s = []
     \<Longrightarrow> fixSource s = s"
  by (simp add: fixSource_def fixBlock_def)

lemma fixSource_no_cast: "execFix ''>this.parent'' s = None \<Longrightarrow> fixSource s = s"
  using execFix_shorter [of s] by (simp add: fixSource_def fixBlock_def Let_def)


text \<open>
  C6, as the claim states it, fails. The source below holds one occurrence of the pattern,
  at its very start, so that no cast precedes it; the claim leaves such a source
  unchanged. The code takes the cast from the first cast pattern anywhere in the source,
  here after the occurrence, and rewrites the occurrence with it.
\<close>

theorem fixSource_cast_after_counterexample:
  "matchAllError ''this.parent.'' ''this.parent._pipe.transform(1); (<View_A>this.parent).ctx''
     = [''this.parent._pipe.transform'']
   \<and> startsWith ''this.parent._pipe.transform''
         ''this.parent._pipe.transform(1); (<View_A>this.parent).ctx''
   \<and> fixSource ''this.parent._pipe.transform(1); (<View_A>this.parent).ctx''
       = ''(<View_A>this.parent)._pipe.transform(1); (<View_A>this.parent).ctx''"
  by code_simp

text \<open>
  C6, amended. Let the leftmost cast pattern \<^verbatim>\<open><T>this.parent\<close> of the source, wherever it
  stands, give a text \<open>T\<close> without dots and dollar signs, and let no occurrence hold a
  dollar sign. Then the first block replaces every occurrence
  \<^verbatim>\<open>this.parent.<member>.transform\<close> of the source, in place, by
  \<^verbatim>\<open>(<T>this.parent).<member>.transform\<close>, whether a cast stands before the occurrence or
  not; the block for the two-level pattern runs on the result, and leaves it as it is
  when it finds no occurrence there. A source without an occurrence of either pattern, or
  without a cast pattern, stays as it is, and is written behind the preamble.
\<close>

theorem fixSource_rewrites:
  "(execFix ''>this.parent'' source = Some T \<and> CHR ''.'' \<notin> set T \<and> CHR ''$'' \<notin> set T
      \<and> (\<forall>m\<in>set (matchAllError ''this.parent.'' source). CHR ''$'' \<notin> set m)
    \<longrightarrow> fixSource source
          = fixBlock ''this.parent.parent.'' ''>this.parent.parent'' 18
              (rewriteEveryOccurrence T source)
        \<and> (matchAllError ''this.parent.parent.'' (rewriteEveryOccurrence T source) = []
             \<longrightarrow> fixSource source = rewriteEveryOccurrence T source))
   \<and> (matchAllError ''this.parent.'' source = []
        \<and> matchAllError ''this.parent.parent.'' source = []
      \<longrightarrow> fixSource source = source)
   \<and> (execFix ''>this.parent'' source = None \<longrightarrow> fixSource source = source)
   \<and> (fixSource (gm_source gm) = gm_source gm
      \<longrightarrow> HostWriteFile (emitPathOf env gm) (PREAMBLE @ gm_source gm) False
            [cg_getSourceFile env (fm_fileUrl fm)]
          \<in> set (fst (writeGenerated env fm gm)))"
proof (intro conjI impI)
  assume a: "execFix ''>this.parent'' source = Some T \<and> CHR ''.'' \<notin> set T
      \<and> CHR ''$'' \<notin> set T
      \<and> (\<forall>m\<in>set (matchAllError ''this.parent.'' source). CHR ''$'' \<notin> set m)"
  then have b: "fixBlock ''this.parent.'' ''>this.parent'' 11 source
                  = rewriteEveryOccurrence T source"
    by (intro fixBlock_rewrites) auto
  then show c: "fixSource source
          = fixBlock ''this.parent.parent.'' ''>this.parent.parent'' 18
              (rewriteEveryOccurrence T source)"
    by (simp add: fixSource_def)
  assume "matchAllError ''this.parent.parent.'' (rewriteEveryOccurrence T source) = []"
  with c show "fixSource source = rewriteEveryOccurrence T source"
    by (simp add: fixBlock_def)
next
  assume "matchAllError ''this.parent.'' source = []
        \<and> matchAllError ''this.parent.parent.'' source = []"
  then show "fixSource source = source"
    by (simp add: fixSource_no_occurrence)
next
  assume "execFix ''>this.parent'' source = None"
  then show "fixSource source = source"
    by (rule fixSource_no_cast)
next
  assume "fixSource (gm_source gm) = gm_source gm"
  then show "HostWriteFile (emitPathOf env gm) (PREAMBLE @ gm_source gm) False
            [cg_getSourceFile env (fm_fileUrl fm)]
          \<in> set (fst (writeGenerated env fm gm))"
    by (simp add: writeGenerated_eq)
qed

theorem fixSource_rewrites_witness:
  "execFix ''>this.parent'' ''<View_A>this.parent.a.transform(1) + this.parent.b.transform(2)''
     = Some ''View_A''
   \<and> fixSource ''<View_A>this.parent.a.transform(1) + this.parent.b.transform(2)''
     = ''<View_A>(<View_A>this.parent).a.transform(1) + (<View_A>this.parent).b.transform(2)''
   \<and> fixSource ''var x = 1;'' = ''var x = 1;''
   \<and> execFix ''>this.parent'' ''this.parent.a.transform(1)'' = None
   \<and> fixSource ''this.parent.a.transform(1)'' = ''this.parent.a.transform(1)''
   \<and> HostWriteFile ''/proj/gen/b.ngfactory.ts'' (PREAMBLE @ ''export const x = 1;'') False [None]
       \<in> set (fst (writeGenerated exampleCodegenEnv exampleFileMeta
                     exampleGenerated))"
proof -
  let ?s = "''<View_A>this.parent.a.transform(1) + this.parent.b.transform(2)''"
  let ?r = "''<View_A>(<View_A>this.parent).a.transform(1) + (<View_A>this.parent).b.transform(2)''"
  have h1: "execFix ''>this.parent'' ?s = Some ''View_A''"
    by code_simp
  have h2: "CHR ''.'' \<notin> set ''View_A''" "CHR ''$'' \<notin> set ''View_A''"
    by simp_all
  have h3: "\<forall>m\<in>set (matchAllError ''this.parent.'' ?s). CHR ''$'' \<notin> set m"
    by code_simp
  have h4: "rewriteEveryOccurrence ''View_A'' ?s = ?r"
    by code_simp
  have h5: "matchAllError ''this.parent.parent.'' ?r = []"
    by code_simp
  have h6: "matchAllError ''this.parent.'' ''var x = 1;'' = []
            \<and> matchAllError ''this.parent.parent.'' ''var x = 1;'' = []"
    by code_simp
  have h7: "execFix ''>this.parent'' ''this.parent.a.transform(1)'' = None"
    by code_simp
  have h8: "fixSource (gm_source exampleGenerated) = gm_source exampleGenerated"
    by code_simp
  have e1: "emitPathOf exampleCodegenEnv exampleGenerated = ''/proj/gen/b.ngfactory.ts''"
    by code_simp
  have g1: "cg_getSourceFile exampleCodegenEnv (fm_fileUrl exampleFileMeta) = None"
    by (simp add: exampleCodegenEnv_def)
  have s1: "gm_source exampleGenerated = ''export const x = 1;''"
    by (simp add: exampleGenerated_def)
  have a: "fixSource ?s = ?r"
    using fixSource_rewrites [of ?s "''View_A''", THEN conjunct1] h1 h2 h3 h5
    unfolding h4 by blast
  have b: "fixSource ''var x = 1;'' = ''var x = 1;''"
    using fixSource_rewrites [of "''var x = 1;''", THEN conjunct2, THEN conjunct1] h6
    by blast
  have c: "fixSource ''this.parent.a.transform(1)'' = ''this.parent.a.transform(1)''"
    using fixSource_rewrites [of "''this.parent.a.transform(1)''", THEN conjunct2,
        THEN conjunct2, THEN conjunct1] h7
    by blast
  have d: "HostWriteFile (emitPathOf exampleCodegenEnv exampleGenerated)
             (PREAMBLE @ gm_source exampleGenerated) False
             [cg_getSourceFile exampleCodegenEnv (fm_fileUrl exampleFileMeta)]
           \<in> set (fst (writeGenerated exampleCodegenEnv exampleFileMeta
                         exampleGenerated))"
    using fixSource_rewrites [of _ _ exampleGenerated exampleCodegenEnv
        exampleFileMeta, THEN conjunct2, THEN conjunct2, THEN conjunct2] h8
    by blast
  show ?thesis
    using h1 a b h7 c d [unfolded e1 g1 s1] by blast
qed

end
